theory Spec2Isabelle
  imports Complex_Main
begin

section \<open>The user document (models/User.js)\<close>

text \<open>
  The fields of the user schema that the streak, unlock and buddy methods read or write.
  Mongoose \<open>Number\<close> fields hold integers here (kibble, streak counters and the buddy
  stats are only ever changed by integer amounts in the modelled methods); a \<open>Date\<close>
  is its \<open>getTime()\<close> value, the number of milliseconds since the epoch;
  \<open>lastSessionDate\<close> is a string or \<open>null\<close>.
\<close>

record user =
  totalKibble :: int
  currentStreak :: int
  longestStreak :: int
  lastSessionDate :: "string option"
  unlockedBreeds :: "string list"
  activeBreed :: string
  buddyHappiness :: int
  buddyFullness :: int
  lastBuddyInteraction :: int

subsection \<open>Buddy decay\<close>

text \<open>The object returned by \<open>decayBuddyStats\<close>.\<close>

record buddy_stats =
  happiness :: int
  fullness :: int
  hoursSinceInteraction :: rat

text \<open>
  \<open>userSchema.methods.decayBuddyStats\<close>. The clock reading \<open>new Date()\<close> is the
  parameter \<open>now\<close>. The method mutates \<open>this\<close>; the model returns the result object
  together with the mutated document. The two constants of the method are functions of
  their own: \<open>hoursSince\<close>, a quotient of two integers, kept exact as a rational, and
  \<open>decay\<close>, where \<open>Math.floor\<close> is \<open>\<lfloor>_\<rfloor>\<close>.
\<close>

definition hoursSince :: "int \<Rightarrow> user \<Rightarrow> rat" where
  "hoursSince now u = of_int (now - lastBuddyInteraction u) / (1000 * 60 * 60)"

definition decay :: "int \<Rightarrow> user \<Rightarrow> int" where
  "decay now u = \<lfloor>hoursSince now u * 2\<rfloor>"

definition decayBuddyStats :: "int \<Rightarrow> user \<Rightarrow> buddy_stats \<times> user" where
  "decayBuddyStats now u =
     (let u' = (if decay now u > 0
                then u\<lparr>buddyHappiness := max 20 (buddyHappiness u - decay now u),
                       buddyFullness := max 10 (buddyFullness u - decay now u)\<rparr>
                else u)
      in (\<lparr>happiness = buddyHappiness u', fullness = buddyFullness u',
           hoursSinceInteraction = hoursSince now u\<rparr>, u'))"

subsection \<open>Dates\<close>

text \<open>
  \<open>new Date(s).getTime()\<close> for a string \<open>s\<close> is a function of the JavaScript platform,
  not of this repository. \<open>updateStreak\<close> takes it as the parameter \<open>getTime\<close>, whose
  result \<open>None\<close> stands for \<open>NaN\<close> (an invalid date). For the dates the routes store
  (\<open>toISOString().split('T')[0]\<close>, the form \<open>YYYY-MM-DD\<close>) the function
  \<open>parseISODate\<close> below computes the time ECMAScript prescribes for the date-only form:
  midnight UTC of that day, from \<open>DayFromYear\<close> and the month lengths.
\<close>

definition digit :: "char \<Rightarrow> int option" where
  "digit c = map_of (zip ''0123456789'' [0, 1, 2, 3, 4, 5, 6, 7, 8, 9]) c"

fun digitsFrom :: "int \<Rightarrow> string \<Rightarrow> int option" where
  "digitsFrom acc [] = Some acc"
| "digitsFrom acc (c # cs) =
     (case digit c of None \<Rightarrow> None | Some d \<Rightarrow> digitsFrom (10 * acc + d) cs)"

definition isLeapYear :: "int \<Rightarrow> bool" where
  "isLeapYear y = (y mod 4 = 0 \<and> (y mod 100 \<noteq> 0 \<or> y mod 400 = 0))"

definition monthLengths :: "int \<Rightarrow> int list" where
  "monthLengths y = [31, if isLeapYear y then 29 else 28, 31, 30, 31, 30, 31, 31, 30, 31, 30, 31]"

definition dayFromYear :: "int \<Rightarrow> int" where
  "dayFromYear y = 365 * (y - 1970) + (y - 1969) div 4 - (y - 1901) div 100 + (y - 1601) div 400"

definition msPerDay :: int where
  "msPerDay = 1000 * 60 * 60 * 24"

definition parseISODate :: "string \<Rightarrow> int option" where
  "parseISODate s =
     (if length s = 10 \<and> s ! 4 = CHR ''-'' \<and> s ! 7 = CHR ''-'' then
        (case (digitsFrom 0 (take 4 s), digitsFrom 0 (take 2 (drop 5 s)), digitsFrom 0 (drop 8 s)) of
           (Some y, Some m, Some d) \<Rightarrow>
             if 1 \<le> m \<and> m \<le> 12 \<and> 1 \<le> d \<and> d \<le> monthLengths y ! nat (m - 1)
             then Some ((dayFromYear y + sum_list (take (nat (m - 1)) (monthLengths y)) + d - 1)
                        * msPerDay)
             else None
         | _ \<Rightarrow> None)
      else None)"

subsection \<open>Streak update\<close>

text \<open>
  JavaScript truthiness of a string-or-null value: \<open>null\<close>, \<open>undefined\<close> and the empty
  string are falsy.
\<close>

definition truthy :: "string option \<Rightarrow> bool" where
  "truthy v = (case v of None \<Rightarrow> False | Some s \<Rightarrow> s \<noteq> [])"

text \<open>
  \<open>Math.floor((todayDate.getTime() - lastDate.getTime()) / (1000 * 60 * 60 * 24))\<close>;
  \<open>None\<close> is \<open>NaN\<close>, the result when either date is invalid.
\<close>

definition diffDays :: "(string \<Rightarrow> int option) \<Rightarrow> string \<Rightarrow> string \<Rightarrow> int option" where
  "diffDays getTime lastS todayS =
     (case (getTime lastS, getTime todayS) of
        (Some lastDate, Some todayDate) \<Rightarrow>
          Some \<lfloor>(of_int (todayDate - lastDate) :: rat) / (1000 * 60 * 60 * 24)\<rfloor>
      | _ \<Rightarrow> None)"

text \<open>
  \<open>userSchema.methods.updateStreak\<close>. \<open>todayISO\<close> is the clock's
  \<open>new Date().toISOString().split('T')[0]\<close>, used when the argument is missing or empty.
  \<open>NaN === 0\<close> and \<open>NaN === 1\<close> are false, so an invalid date takes the last branch.
\<close>

definition updateStreak ::
  "(string \<Rightarrow> int option) \<Rightarrow> string \<Rightarrow> string option \<Rightarrow> user \<Rightarrow> user" where
  "updateStreak getTime todayISO sessionDate u =
     (let today = (if truthy sessionDate then the sessionDate else todayISO);
          u1 = (if \<not> truthy (lastSessionDate u) then u\<lparr>currentStreak := 1\<rparr>
                else (let d = diffDays getTime (the (lastSessionDate u)) today in
                      if d = Some 0 then u
                      else if d = Some 1 then u\<lparr>currentStreak := currentStreak u + 1\<rparr>
                      else u\<lparr>currentStreak := 1\<rparr>));
          u2 = (if currentStreak u1 > longestStreak u1
                then u1\<lparr>longestStreak := currentStreak u1\<rparr> else u1)
      in u2\<lparr>lastSessionDate := Some today\<rparr>)"

text \<open>A sequence of calls, each with its own session date, on the same document.\<close>

fun updateStreaks ::
  "(string \<Rightarrow> int option) \<Rightarrow> string \<Rightarrow> string option list \<Rightarrow> user \<Rightarrow> user" where
  "updateStreaks getTime todayISO [] u = u"
| "updateStreaks getTime todayISO (d # ds) u =
     updateStreaks getTime todayISO ds (updateStreak getTime todayISO d u)"

subsection \<open>Breed unlocks\<close>

text \<open>
  \<open>BREED_UNLOCK_REQUIREMENTS\<close>: an object literal, as the list of its entries in the
  order \<open>Object.entries\<close> yields them (insertion order: no key is an array index).
\<close>

definition BREED_UNLOCK_REQUIREMENTS :: "(string \<times> int) list" where
  "BREED_UNLOCK_REQUIREMENTS =
     [(''golden_retriever'', 0), (''husky'', 100), (''shiba_inu'', 250), (''cavapoo'', 500),
      (''french_bulldog'', 750), (''labrador'', 1000), (''dachshund'', 1500),
      (''australian_shepherd'', 2000), (''maltese'', 3000)]"

text \<open>
  The loop of \<open>checkBreedUnlocks\<close> over the remaining entries: \<open>unlocked\<close> is
  \<open>this.unlockedBreeds\<close>, \<open>newly\<close> is \<open>newlyUnlocked\<close>; \<open>push\<close> appends.
\<close>

fun unlockLoop ::
  "int \<Rightarrow> (string \<times> int) list \<Rightarrow> string list \<Rightarrow> string list \<Rightarrow> string list \<times> string list" where
  "unlockLoop kibble [] unlocked newly = (newly, unlocked)"
| "unlockLoop kibble ((breedId, requirement) # rest) unlocked newly =
     (if kibble \<ge> requirement \<and> breedId \<notin> set unlocked
      then unlockLoop kibble rest (unlocked @ [breedId]) (newly @ [breedId])
      else unlockLoop kibble rest unlocked newly)"

text \<open>
  The method over an arbitrary table of requirements, and the method of the source, which
  reads the module's table. The result is \<open>newlyUnlocked\<close> and the mutated document.
\<close>

definition checkUnlocks :: "(string \<times> int) list \<Rightarrow> user \<Rightarrow> string list \<times> user" where
  "checkUnlocks reqs u =
     (let (newly, unlocked) = unlockLoop (totalKibble u) reqs (unlockedBreeds u) []
      in (newly, u\<lparr>unlockedBreeds := unlocked\<rparr>))"

definition checkBreedUnlocks :: "user \<Rightarrow> string list \<times> user" where
  "checkBreedUnlocks u = checkUnlocks BREED_UNLOCK_REQUIREMENTS u"

section \<open>The buddy routes\<close>

subsection \<open>Helpers\<close>

text \<open>Display strings hold emoji; a string is the list of its UTF-8 bytes.\<close>

text \<open>\<open>getBreedName\<close>: \<open>names[breedId] || 'Buddy'\<close>.\<close>

definition getBreedName :: "string \<Rightarrow> string" where
  "getBreedName breedId =
     (case map_of
        [(''golden_retriever'', ''Golden Retriever''), (''husky'', ''Husky''),
         (''shiba_inu'', ''Shiba Inu''), (''cavapoo'', ''Cavapoo''),
         (''french_bulldog'', ''French Bulldog''), (''labrador'', ''Labrador''),
         (''dachshund'', ''Dachshund''), (''australian_shepherd'', ''Australian Shepherd''),
         (''maltese'', ''Maltese'')] breedId of
        Some n \<Rightarrow> n
      | None \<Rightarrow> ''Buddy'')"

record buddy_status =
  statusText :: string
  statusEmoji :: string
  statusState :: string

text \<open>\<open>getBuddyStatus\<close>.\<close>

definition getBuddyStatus :: "int \<Rightarrow> int \<Rightarrow> buddy_status" where
  "getBuddyStatus h f =
     (if f < 30 then
        \<lparr>statusText = ''Sleepy & hungry... '' @ [CHR 0xF0, CHR 0x9F, CHR 0x92, CHR 0xA4],
         statusEmoji = [CHR 0xF0, CHR 0x9F, CHR 0x92, CHR 0xA4], statusState = ''sleeping''\<rparr>
      else if h \<ge> 90 then
        \<lparr>statusText = ''Super happy! '' @ [CHR 0xF0, CHR 0x9F, CHR 0x8E, CHR 0x89],
         statusEmoji = [CHR 0xF0, CHR 0x9F, CHR 0x8E, CHR 0x89], statusState = ''happy''\<rparr>
      else if f < 50 then
        \<lparr>statusText = ''Getting hungry... '' @ [CHR 0xF0, CHR 0x9F, CHR 0xA5, CHR 0xBA],
         statusEmoji = [CHR 0xF0, CHR 0x9F, CHR 0xA5, CHR 0xBA], statusState = ''hungry''\<rparr>
      else if h < 50 then
        \<lparr>statusText = ''Needs some attention '' @ [CHR 0xF0, CHR 0x9F, CHR 0x90, CHR 0x95],
         statusEmoji = [CHR 0xF0, CHR 0x9F, CHR 0x90, CHR 0x95], statusState = ''lonely''\<rparr>
      else
        \<lparr>statusText = ''Happy & content '' @ [CHR 0xF0, CHR 0x9F, CHR 0x98, CHR 0x8A],
         statusEmoji = [CHR 0xF0, CHR 0x9F, CHR 0x98, CHR 0x8A], statusState = ''idle''\<rparr>)"

subsection \<open>POST /buddy/interact\<close>

text \<open>The body of the success response.\<close>

record interact_body =
  respAction :: string
  respMessage :: string
  kibbleSpent :: int
  statsHappiness :: int
  statsFullness :: int
  statsKibbleBalance :: int
  respStatus :: buddy_status

text \<open>
  The responses of the handler: status 400 with the kibble balance, status 400 for an
  unknown action, status 200 with the body above.
\<close>

datatype interact_response =
    NotEnoughKibble int
  | InvalidAction
  | Interacted interact_body

fun httpStatus :: "interact_response \<Rightarrow> int" where
  "httpStatus (NotEnoughKibble _) = 400"
| "httpStatus InvalidAction = 400"
| "httpStatus (Interacted _) = 200"

text \<open>
  The tail of the handler after the \<open>switch\<close>: stamp the interaction, save, answer.
  \<open>u\<close> is \<open>req.user\<close> as the branch left it.
\<close>

definition interactDone :: "int \<Rightarrow> string \<Rightarrow> string \<Rightarrow> int \<Rightarrow> user \<Rightarrow> interact_response \<times> user" where
  "interactDone now action message spent u =
     (let u' = u\<lparr>lastBuddyInteraction := now\<rparr>
      in (Interacted \<lparr>respAction = action, respMessage = message, kibbleSpent = spent,
            statsHappiness = buddyHappiness u', statsFullness = buddyFullness u',
            statsKibbleBalance = totalKibble u',
            respStatus = getBuddyStatus (buddyHappiness u') (buddyFullness u')\<rparr>, u'))"

text \<open>
  The handler, from the request's \<open>action\<close> and the user document to the response and
  the document as the handler leaves it (saved on the success path, untouched by an early
  \<open>return\<close>). \<open>now\<close> is \<open>new Date()\<close>. A failing \<open>save\<close> (the \<open>catch\<close> branch) belongs to
  the database and is not modelled.
\<close>

definition interact :: "int \<Rightarrow> string \<Rightarrow> user \<Rightarrow> interact_response \<times> user" where
  "interact now action u =
     (if action = ''pet'' then
        interactDone now action
          (getBreedName (activeBreed u) @ '' loves the pets! '' @ [CHR 0xF0, CHR 0x9F, CHR 0x92, CHR 0x9A]) 0
          (u\<lparr>buddyHappiness := min 100 (buddyHappiness u + 5)\<rparr>)
      else if action = ''play'' then
        interactDone now action
          (getBreedName (activeBreed u) @ '' had a blast playing! '' @ [CHR 0xF0, CHR 0x9F, CHR 0x8E, CHR 0xBE]) 0
          (u\<lparr>buddyHappiness := min 100 (buddyHappiness u + 10),
             buddyFullness := max 0 (buddyFullness u - 5)\<rparr>)
      else if action = ''treat'' then
        (if totalKibble u < 10 then (NotEnoughKibble (totalKibble u), u)
         else interactDone now action
           (getBreedName (activeBreed u) @ '' gobbled up the treat! '' @ [CHR 0xF0, CHR 0x9F, CHR 0xA6, CHR 0xB4]) 10
           (u\<lparr>totalKibble := totalKibble u - 10,
              buddyFullness := min 100 (buddyFullness u + 20),
              buddyHappiness := min 100 (buddyHappiness u + 5)\<rparr>))
      else (InvalidAction, u))"

section \<open>Verification tokens (models/VerificationToken.js)\<close>

subsection \<open>The collection\<close>

text \<open>The \<open>type\<close> enum of the schema: \<open>'email'\<close> and \<open>'password'\<close>.\<close>

datatype token_type = Email | Password

text \<open>
  A document of the collection. \<open>tokenId\<close> is \<open>_id\<close>; \<open>ttype\<close> is the field
  \<open>type\<close>; dates are milliseconds since the epoch; the two optional fields are
  \<open>None\<close> while undefined.
\<close>

record verification_token =
  tokenId :: nat
  userId :: string
  email :: string
  otp :: string
  ttype :: token_type
  attempts :: int
  maxAttempts :: int
  resendCount :: int
  lastResendAt :: int
  expiresAt :: int
  resetToken :: "string option"
  resetTokenExpiresAt :: "int option"

text \<open>
  The collection is the list of its documents in the order \<open>findOne\<close> scans them:
  \<open>findOne\<close> is \<open>find\<close>, \<open>deleteMany\<close> drops every match, \<open>deleteOne({_id})\<close> drops
  the first document with that \<open>_id\<close>, \<open>save\<close> of a loaded document replaces the first
  document with its \<open>_id\<close>, and \<open>create\<close> appends a document under an \<open>_id\<close> that no
  document of the collection holds.
\<close>

type_synonym collection = "verification_token list"

definition deleteMany :: "(verification_token \<Rightarrow> bool) \<Rightarrow> collection \<Rightarrow> collection" where
  "deleteMany P st = filter (\<lambda>t. \<not> P t) st"

fun deleteOne :: "nat \<Rightarrow> collection \<Rightarrow> collection" where
  "deleteOne i [] = []"
| "deleteOne i (t # ts) = (if tokenId t = i then ts else t # deleteOne i ts)"

fun save :: "verification_token \<Rightarrow> collection \<Rightarrow> collection" where
  "save d [] = []"
| "save d (t # ts) = (if tokenId t = tokenId d then d # ts else t # save d ts)"

definition newId :: "collection \<Rightarrow> nat" where
  "newId st = Suc (fold max (map tokenId st) 0)"

subsection \<open>generateOTP\<close>

text \<open>\<open>Number.prototype.toString\<close> on a natural number: its decimal digits.\<close>

definition digitChar :: "nat \<Rightarrow> char" where
  "digitChar n = ''0123456789'' ! n"

fun decimal :: "nat \<Rightarrow> string" where
  "decimal n = (if n < 10 then [digitChar n]
                else decimal (n div 10) @ [digitChar (n mod 10)])"

declare decimal.simps [simp del]

text \<open>
  \<open>Math.floor(100000 + Math.random() * 900000).toString()\<close>; \<open>rnd\<close> is the value
  \<open>Math.random()\<close> returned, a number in \<open>[0, 1)\<close>.
\<close>

definition generateOTP :: "rat \<Rightarrow> string" where
  "generateOTP rnd = decimal (nat \<lfloor>100000 + rnd * 900000\<rfloor>)"

subsection \<open>createOTP\<close>

text \<open>The schema's \<open>lowercase: true\<close> setter on \<open>email\<close>, on ASCII letters.\<close>

definition lowercase :: "string \<Rightarrow> string" where
  "lowercase s =
     map (\<lambda>c. case map_of (zip ''ABCDEFGHIJKLMNOPQRSTUVWXYZ'' ''abcdefghijklmnopqrstuvwxyz'') c of
                None \<Rightarrow> c
              | Some l \<Rightarrow> l) s"

text \<open>The error \<open>createOTP\<close> throws; it carries \<open>waitTime\<close>, in minutes.\<close>

datatype otp_error = TooManyRequests int

text \<open>The filter \<open>{ userId, type }\<close>.\<close>

definition forUser :: "string \<Rightarrow> token_type \<Rightarrow> verification_token \<Rightarrow> bool" where
  "forUser uid ty t = (userId t = uid \<and> ttype t = ty)"

text \<open>
  \<open>waitTime\<close>: \<open>Math.ceil((existingToken.lastResendAt.getTime() + 10 * 60 * 1000 -
  Date.now()) / 1000 / 60)\<close>.
\<close>

definition waitTime :: "int \<Rightarrow> verification_token \<Rightarrow> int" where
  "waitTime now e = \<lceil>(of_int (lastResendAt e + 10 * 60 * 1000 - now) :: rat) / 1000 / 60\<rceil>"

text \<open>The query \<open>{ userId, type, lastResendAt: { $gte: tenMinutesAgo } }\<close>.\<close>

definition recent :: "int \<Rightarrow> string \<Rightarrow> token_type \<Rightarrow> verification_token \<Rightarrow> bool" where
  "recent tenMinutesAgo uid ty t = (forUser uid ty t \<and> lastResendAt t \<ge> tenMinutesAgo)"

text \<open>
  The document \<open>this.create({...})\<close> stores: the fields given, the schema defaults for
  \<open>attempts\<close> and \<open>maxAttempts\<close>, the optional fields undefined. \<open>i\<close> is its \<open>_id\<close>,
  \<open>count\<close> its \<open>resendCount\<close>.
\<close>

definition newToken ::
  "nat \<Rightarrow> int \<Rightarrow> rat \<Rightarrow> string \<Rightarrow> string \<Rightarrow> token_type \<Rightarrow> int \<Rightarrow> verification_token" where
  "newToken i now rnd uid mail ty count =
     \<lparr>tokenId = i, userId = uid, email = lowercase mail, otp = generateOTP rnd, ttype = ty,
      attempts = 0, maxAttempts = 5, resendCount = count, lastResendAt = now,
      expiresAt = now + 10 * 60 * 1000, resetToken = None, resetTokenExpiresAt = None\<rparr>"

text \<open>
  \<open>verificationTokenSchema.statics.createOTP\<close>. One clock reading \<open>now\<close> stands for the
  \<open>Date.now()\<close> and \<open>new Date()\<close> calls of one invocation; \<open>rnd\<close> is the random draw.
  The result is the error thrown or the plaintext code, and the collection afterwards.
\<close>

definition createOTP ::
  "int \<Rightarrow> rat \<Rightarrow> string \<Rightarrow> string \<Rightarrow> token_type \<Rightarrow> collection \<Rightarrow> (otp_error + string) \<times> collection" where
  "createOTP now rnd uid mail ty st =
     (let tenMinutesAgo = now - 10 * 60 * 1000;
          existingToken = find (recent tenMinutesAgo uid ty) st
      in if (case existingToken of None \<Rightarrow> False | Some e \<Rightarrow> resendCount e \<ge> 3)
         then (Inl (TooManyRequests (waitTime now (the existingToken))), st)
         else
           (let st1 = deleteMany (forUser uid ty) st;
                verificationToken =
                  newToken (newId st1) now rnd uid mail ty
                    (case existingToken of None \<Rightarrow> 0 | Some e \<Rightarrow> resendCount e + 1)
            in (Inr (otp verificationToken), st1 @ [verificationToken])))"

text \<open>
  The wait the specification words: \<open>ceil((lastResendAt + 10min - now) / 60s / 60)\<close>,
  the times in milliseconds as everywhere in the code, so that \<open>60s\<close> is \<open>60 * 1000\<close>.
\<close>

definition specWaitTime :: "int \<Rightarrow> verification_token \<Rightarrow> int" where
  "specWaitTime now e =
     \<lceil>(of_int (lastResendAt e + 10 * 60 * 1000 - now) :: rat) / (60 * 1000) / 60\<rceil>"

text \<open>
  Successive calls for one user and type, each with its clock reading, random draw and
  address; the trace holds every call's result and the collection it left.
\<close>

fun createOTPs ::
  "(int \<times> rat \<times> string) list \<Rightarrow> string \<Rightarrow> token_type \<Rightarrow> collection
     \<Rightarrow> ((otp_error + string) \<times> collection) list" where
  "createOTPs [] uid ty st = []"
| "createOTPs ((now, rnd, mail) # cs) uid ty st =
     (let r = createOTP now rnd uid mail ty st in r # createOTPs cs uid ty (snd r))"

subsection \<open>verifyOTP\<close>

text \<open>
  The objects \<open>verifyOTP\<close> returns: no document (\<open>NotFound\<close>), \<open>expired: true\<close>
  (\<open>Expired\<close>), \<open>maxAttempts: true\<close> (\<open>Exhausted\<close>), a wrong code with
  \<open>remainingAttempts\<close> (\<open>Mismatch\<close>), and \<open>valid: true\<close> with the \<open>userId\<close>.
\<close>

datatype verify_result = NotFound | Expired | Exhausted | Mismatch int | Valid string

definition verifyOTP ::
  "int \<Rightarrow> string \<Rightarrow> string \<Rightarrow> token_type \<Rightarrow> collection \<Rightarrow> verify_result \<times> collection" where
  "verifyOTP now uid code ty st =
     (case find (forUser uid ty) st of
        None \<Rightarrow> (NotFound, st)
      | Some t \<Rightarrow>
          if expiresAt t < now then (Expired, deleteOne (tokenId t) st)
          else if attempts t \<ge> maxAttempts t then (Exhausted, deleteOne (tokenId t) st)
          else if otp t \<noteq> code then
            (let t' = t\<lparr>attempts := attempts t + 1\<rparr>
             in (Mismatch (maxAttempts t' - attempts t'), save t' st))
          else (Valid (userId t), deleteOne (tokenId t) st))"

text \<open>
  Successive calls, each with its clock reading and the code submitted: the results in
  order, and the collection after the last call.
\<close>

fun verifyOTPs ::
  "(int \<times> string) list \<Rightarrow> string \<Rightarrow> token_type \<Rightarrow> collection
     \<Rightarrow> verify_result list \<times> collection" where
  "verifyOTPs [] uid ty st = ([], st)"
| "verifyOTPs ((now, code) # cs) uid ty st =
     (let (r, st1) = verifyOTP now uid code ty st;
          (rs, st2) = verifyOTPs cs uid ty st1
      in (r # rs, st2))"

subsection \<open>Invariants of the collection\<close>

text \<open>
  No two documents share an \<open>_id\<close>, and there is at most one document for a user and a
  type: \<open>createOTP\<close>, the only place that creates a document, deletes the user's documents
  of that type first.
\<close>

definition tokenKey :: "verification_token \<Rightarrow> string \<times> token_type" where
  "tokenKey t = (userId t, ttype t)"

definition distinctIds :: "collection \<Rightarrow> bool" where
  "distinctIds st = distinct (map tokenId st)"

definition onePerUser :: "collection \<Rightarrow> bool" where
  "onePerUser st = distinct (map tokenKey st)"

section \<open>The password-reset routes (routes/auth.routes.js)\<close>

text \<open>
  The database the two handlers touch: the users collection, as the map from a user's
  \<open>_id\<close> to the stored password (\<open>Some None\<close>: an account without a password; the
  \<open>bcrypt\<close> hashing of the pre-save hook is outside the model, the map holds the password
  the hash is taken of), and the verification tokens. Request fields are strings, a
  missing field being the empty string. The rate limiters mounted before the handlers are
  not modelled.
\<close>

record db =
  users :: "string \<rightharpoonup> string option"
  tokens :: collection

subsection \<open>POST /auth/verify-reset-otp\<close>

text \<open>
  The responses, in the order of the handler's exits: 400 (fields required), 400 (bad
  format), 404 (user not found), 400 (no code), 400 with \<open>expired\<close>, 400 with
  \<open>maxAttempts\<close>, 400 with \<open>remainingAttempts\<close>, and 200 with \<open>resetToken\<close> and
  \<open>userId\<close>.
\<close>

datatype reset_otp_response =
    OtpFieldsRequired
  | OtpBadFormat
  | OtpUserNotFound
  | OtpNoCode
  | OtpExpired
  | OtpMaxAttempts
  | OtpInvalid int
  | OtpVerified string string

text \<open>The test \<open>/^\d{6}$/\<close>.\<close>

definition sixDigits :: "string \<Rightarrow> bool" where
  "sixDigits s = (length s = 6 \<and> list_all (\<lambda>c. digit c \<noteq> None) s)"

text \<open>
  The handler. \<open>tok\<close> is the reset token the handler draws
  (\<open>Math.random().toString(36).slice(-16) + Date.now().toString(36)\<close>), \<open>now\<close> the clock.
\<close>

definition verifyResetOtp ::
  "int \<Rightarrow> string \<Rightarrow> string \<Rightarrow> string \<Rightarrow> db \<Rightarrow> reset_otp_response \<times> db" where
  "verifyResetOtp now tok uid code d =
     (if uid = [] \<or> code = [] then (OtpFieldsRequired, d)
      else if \<not> sixDigits code then (OtpBadFormat, d)
      else if users d uid = None then (OtpUserNotFound, d)
      else
        (case find (forUser uid Password) (tokens d) of
           None \<Rightarrow> (OtpNoCode, d)
         | Some t \<Rightarrow>
             if expiresAt t < now then (OtpExpired, d\<lparr>tokens := deleteOne (tokenId t) (tokens d)\<rparr>)
             else if attempts t \<ge> maxAttempts t
               then (OtpMaxAttempts, d\<lparr>tokens := deleteOne (tokenId t) (tokens d)\<rparr>)
             else if otp t \<noteq> code then
               (let t' = t\<lparr>attempts := attempts t + 1\<rparr>
                in (OtpInvalid (maxAttempts t' - attempts t'), d\<lparr>tokens := save t' (tokens d)\<rparr>))
             else
               (let t' = t\<lparr>resetToken := Some tok,
                           resetTokenExpiresAt := Some (now + 5 * 60 * 1000)\<rparr>
                in (OtpVerified tok uid, d\<lparr>tokens := save t' (tokens d)\<rparr>))))"

subsection \<open>POST /auth/reset-password\<close>

text \<open>
  The responses: 400 (all fields required), 400 (password too short), 400 \<open>Invalid or
  expired reset token\<close>, 400 \<open>Reset token has expired\<close>, 404 (user not found), 200.
\<close>

datatype reset_password_response =
    FieldsRequired
  | PasswordTooShort
  | InvalidOrExpiredToken
  | ResetTokenExpired
  | UserNotFound
  | PasswordReset

text \<open>
  \<open>verificationToken.resetTokenExpiresAt < new Date()\<close>; an undefined field compares
  false.
\<close>

definition resetTokenStale :: "int \<Rightarrow> verification_token \<Rightarrow> bool" where
  "resetTokenStale now t = (case resetTokenExpiresAt t of None \<Rightarrow> False | Some e \<Rightarrow> e < now)"

definition resetPassword ::
  "int \<Rightarrow> string \<Rightarrow> string \<Rightarrow> string \<Rightarrow> db \<Rightarrow> reset_password_response \<times> db" where
  "resetPassword now uid tok password d =
     (if uid = [] \<or> tok = [] \<or> password = [] then (FieldsRequired, d)
      else if length password < 6 then (PasswordTooShort, d)
      else
        (case find (\<lambda>t. userId t = uid \<and> ttype t = Password \<and> resetToken t = Some tok) (tokens d) of
           None \<Rightarrow> (InvalidOrExpiredToken, d)
         | Some t \<Rightarrow>
             if resetTokenStale now t
               then (ResetTokenExpired, d\<lparr>tokens := deleteOne (tokenId t) (tokens d)\<rparr>)
             else if users d uid = None then (UserNotFound, d)
             else (PasswordReset,
                   d\<lparr>users := (users d)(uid \<mapsto> Some password),
                     tokens := deleteOne (tokenId t) (tokens d)\<rparr>)))"

text \<open>
  The two reset-token failures are the error the specification calls
  \<open>InvalidResetToken\<close>.
\<close>

definition invalidResetToken :: "reset_password_response \<Rightarrow> bool" where
  "invalidResetToken r = (r = InvalidOrExpiredToken \<or> r = ResetTokenExpired)"

section \<open>Sample data\<close>

text \<open>Concrete documents and tables at which the theorems below are instantiated.\<close>

definition idle_user :: user where
  "idle_user = \<lparr>totalKibble = 150, currentStreak = 7, longestStreak = 9,
     lastSessionDate = Some ''2024-01-01'', unlockedBreeds = [''a''],
     activeBreed = ''husky'', buddyHappiness = 100, buddyFullness = 100,
     lastBuddyInteraction = 0\<rparr>"

definition abc_reqs :: "(string \<times> int) list" where
  "abc_reqs = [(''a'', 0), (''b'', 100), (''c'', 250)]"


text \<open>
  A collection holding one freshly issued code, for user \<open>u1\<close>: the code is
  \<open>100000\<close>, issued at time 0.
\<close>

definition issued :: collection where
  "issued = snd (createOTP 0 0 ''u1'' ''U1@Example.com'' Email [])"

text \<open>Five submissions of a wrong code, and a sixth of the right one, before the code expires.\<close>

definition five_wrong :: "(int \<times> string) list" where
  "five_wrong = [(1000, ''000000''), (2000, ''111111''), (3000, ''222222''),
                 (4000, ''999999''), (5000, ''100001'')]"

definition issued_token :: verification_token where
  "issued_token = \<lparr>tokenId = 1, userId = ''u1'', email = ''u1@example.com'', otp = ''100000'',
     ttype = Email, attempts = 0, maxAttempts = 5, resendCount = 0, lastResendAt = 0,
     expiresAt = 600000, resetToken = None, resetTokenExpiresAt = None\<rparr>"

text \<open>Five requests for a code within four seconds, by a user who holds none.\<close>

definition five_requests :: "(int \<times> rat \<times> string) list" where
  "five_requests = [(0, 0, ''u1@example.com''), (1000, 0, ''u1@example.com''),
                    (2000, 0, ''u1@example.com''), (3000, 0, ''u1@example.com''),
                    (4000, 0, ''u1@example.com'')]"

text \<open>
  A collection whose only record has been resent three times, the last time at time 0,
  and a request for another code five minutes later.
\<close>

definition limited_token :: verification_token where
  "limited_token = issued_token\<lparr>resendCount := 3\<rparr>"

text \<open>
  A database with the user \<open>u1\<close> and a password-reset code \<open>100000\<close> issued at time 0;
  the reset token the handler draws is \<open>tok\<close>.
\<close>

definition reset_token :: verification_token where
  "reset_token = issued_token\<lparr>ttype := Password\<rparr>"

definition reset_db :: db where
  "reset_db = \<lparr>users = [''u1'' \<mapsto> Some ''old-password''], tokens = [reset_token]\<rparr>"

text \<open>The sample database after the code was verified at time 1000, and after the reset.\<close>

definition verified_token :: verification_token where
  "verified_token = reset_token\<lparr>resetToken := Some ''tok'', resetTokenExpiresAt := Some 301000\<rparr>"

definition verified_db :: db where
  "verified_db = reset_db\<lparr>tokens := [verified_token]\<rparr>"

definition changed_db :: db where
  "changed_db = \<lparr>users = [''u1'' \<mapsto> Some ''new-password''], tokens = []\<rparr>"

section \<open>Arithmetic helpers\<close>

text \<open>
  Times are integers and every quotient the code takes is a quotient of integers, kept
  exact here, so \<open>Math.floor\<close> and \<open>Math.ceil\<close> of it are integer divisions. In double
  precision the quotient is rounded; for dates within thousands of years of each other
  the rounding error is far smaller than the distance of a non-integer quotient to the
  nearest integer, so the rounded floor and ceiling are the exact ones.
\<close>

lemma floor_rat_numeral [simp]:
  "\<lfloor>(numeral a :: rat) / numeral b\<rfloor> = numeral a div numeral b"
  by (metis floor_divide_of_int_eq of_int_numeral)

lemma ceiling_rat_numeral [simp]:
  "\<lceil>(numeral a :: rat) / numeral b\<rceil> = - (- numeral a div numeral b)"
  unfolding ceiling_def
  by (metis floor_divide_of_int_eq of_int_numeral of_int_minus minus_divide_left)

section \<open>Buddy decay\<close>

lemma decay_div: "decay now u = (2 * (now - lastBuddyInteraction u)) div 3600000"
proof -
  have "hoursSince now u * 2 = of_int (2 * (now - lastBuddyInteraction u)) / of_int 3600000"
    by (simp add: hoursSince_def)
  then show ?thesis
    unfolding decay_def by (simp only: floor_divide_of_int_eq)
qed

text \<open>
  Claim C8. \<open>decayBuddyStats\<close> takes \<open>hoursSince = (now - lastBuddyInteraction) / 1 hour\<close>
  and \<open>decay = floor(hoursSince * 2)\<close>, which is the number of whole half hours elapsed.
  When \<open>decay > 0\<close> it sets \<open>buddyHappiness\<close> to \<open>max(20, buddyHappiness - decay)\<close>
  and \<open>buddyFullness\<close> to \<open>max(10, buddyFullness - decay)\<close>, otherwise it changes nothing;
  it never changes \<open>lastBuddyInteraction\<close> or any other field, and it returns the values
  after decay together with \<open>hoursSince\<close>. With the last interaction 3.4 hours ago and
  both stats at 100, \<open>decay\<close> is 6 and the result is 94 and 94.
\<close>

theorem decayBuddyStats_spec:
  "(let (r, u') = decayBuddyStats now u
    in hoursSince now u = of_int (now - lastBuddyInteraction u) / 3600000
       \<and> decay now u = \<lfloor>hoursSince now u * 2\<rfloor>
       \<and> decay now u = (2 * (now - lastBuddyInteraction u)) div 3600000
       \<and> (decay now u > 0 \<longrightarrow> buddyHappiness u' = max 20 (buddyHappiness u - decay now u)
                        \<and> buddyFullness u' = max 10 (buddyFullness u - decay now u))
       \<and> (\<not> decay now u > 0 \<longrightarrow> u' = u)
       \<and> lastBuddyInteraction u' = lastBuddyInteraction u
       \<and> u' = u\<lparr>buddyHappiness := buddyHappiness u', buddyFullness := buddyFullness u'\<rparr>
       \<and> r = \<lparr>happiness = buddyHappiness u', fullness = buddyFullness u',
               hoursSinceInteraction = hoursSince now u\<rparr>)
   \<and> (buddyHappiness u = 100 \<and> buddyFullness u = 100 \<and> hoursSince now u = 34 / 10
      \<longrightarrow> decay now u = 6
          \<and> happiness (fst (decayBuddyStats now u)) = 94
          \<and> fullness (fst (decayBuddyStats now u)) = 94)"
proof -
  obtain r u' where run: "decayBuddyStats now u = (r, u')"
    by (cases "decayBuddyStats now u")
  have c1: "hoursSince now u = of_int (now - lastBuddyInteraction u) / 3600000"
    by (simp add: hoursSince_def)
  have c2: "decay now u = \<lfloor>hoursSince now u * 2\<rfloor>"
    by (simp only: decay_def)
  have c3: "decay now u = (2 * (now - lastBuddyInteraction u)) div 3600000"
    by (rule decay_div)
  have c4: "decay now u > 0 \<longrightarrow> buddyHappiness u' = max 20 (buddyHappiness u - decay now u)
              \<and> buddyFullness u' = max 10 (buddyFullness u - decay now u)"
    using run by (auto simp add: decayBuddyStats_def Let_def)
  have c5: "\<not> decay now u > 0 \<longrightarrow> u' = u"
    using run by (auto simp add: decayBuddyStats_def Let_def)
  have c6: "lastBuddyInteraction u' = lastBuddyInteraction u"
    using run by (auto simp add: decayBuddyStats_def Let_def)
  have c7: "u' = u\<lparr>buddyHappiness := buddyHappiness u', buddyFullness := buddyFullness u'\<rparr>"
    using run by (auto simp add: decayBuddyStats_def Let_def)
  have c8: "r = \<lparr>happiness = buddyHappiness u', fullness = buddyFullness u',
               hoursSinceInteraction = hoursSince now u\<rparr>"
    using run by (auto simp add: decayBuddyStats_def Let_def)
  have c9: "decay now u = 6 \<and> happiness r = 94 \<and> fullness r = 94"
    if h: "buddyHappiness u = 100 \<and> buddyFullness u = 100 \<and> hoursSince now u = 34 / 10"
  proof -
    have "decay now u = \<lfloor>(34 / 10 :: rat) * 2\<rfloor>"
      using h by (simp only: decay_def)
    also have "\<dots> = 6"
      by simp
    finally have d: "decay now u = 6" .
    with c4 c8 h show ?thesis
      by simp
  qed
  show ?thesis
    unfolding Let_def run prod.case fst_conv
    using c1 c2 c3 c4 c5 c6 c7 c8 c9 by blast
qed

text \<open>The claim at the sample user, 12240000 ms (3.4 hours) after the last interaction.\<close>

theorem decayBuddyStats_spec_witness:
  "0 < decay 12240000 idle_user
   \<and> buddyHappiness idle_user = 100 \<and> buddyFullness idle_user = 100
   \<and> hoursSince 12240000 idle_user = 34 / 10
   \<and> buddyHappiness (snd (decayBuddyStats 12240000 idle_user)) = 94
   \<and> happiness (fst (decayBuddyStats 12240000 idle_user)) = 94
   \<and> fullness (fst (decayBuddyStats 12240000 idle_user)) = 94"
proof -
  have h: "hoursSince 12240000 idle_user = 34 / 10"
    by (simp add: hoursSince_def idle_user_def)
  have s: "buddyHappiness idle_user = 100 \<and> buddyFullness idle_user = 100"
    by (simp add: idle_user_def)
  from decayBuddyStats_spec [of 12240000 idle_user] h s show ?thesis
    by (simp add: split_beta Let_def)
qed

text \<open>
  Claim C3 says that two calls of \<open>decayBuddyStats\<close> in immediate succession return the
  same values. The method writes the decayed stats to the document and leaves
  \<open>lastBuddyInteraction\<close> alone, so the second call subtracts the same decay again from
  the decayed values: at the sample user, 3.4 hours after the last interaction, the first
  call returns 94 and 94, the second 88 and 88.
\<close>

theorem decayBuddyStats_twice_decays_twice:
  "(let (r1, u1) = decayBuddyStats 12240000 idle_user;
        (r2, u2) = decayBuddyStats 12240000 u1
    in happiness r1 = 94 \<and> fullness r1 = 94 \<and> happiness r2 = 88 \<and> fullness r2 = 88
       \<and> r2 \<noteq> r1)"
  by (simp add: decayBuddyStats_def decay_def hoursSince_def idle_user_def Let_def)


section \<open>Streaks\<close>

lemma parse_2024_01_01: "parseISODate ''2024-01-01'' = Some 1704067200000"
  by code_simp

lemma parse_2024_01_02: "parseISODate ''2024-01-02'' = Some 1704153600000"
  by code_simp

lemma parse_2024_01_04: "parseISODate ''2024-01-04'' = Some 1704326400000"
  by code_simp

lemma diffDays_div:
  "getTime l = Some a \<Longrightarrow> getTime s = Some b \<Longrightarrow>
   diffDays getTime l s = Some ((b - a) div 86400000)"
proof -
  assume l: "getTime l = Some a" and s: "getTime s = Some b"
  have "\<lfloor>(of_int (b - a) :: rat) / of_int 86400000\<rfloor> = (b - a) div 86400000"
    by (rule floor_divide_of_int_eq)
  then show ?thesis
    by (simp add: diffDays_def l s)
qed

lemma updateStreaks_snoc:
  "updateStreaks g t (ds @ [d]) u = updateStreak g t d (updateStreaks g t ds u)"
  by (induction ds arbitrary: u) simp_all

lemma updateStreak_inv: "currentStreak (updateStreak g t d u) \<le> longestStreak (updateStreak g t d u)"
  by (simp add: updateStreak_def Let_def)

text \<open>
  Claim C6. \<open>updateStreak\<close> with a session date \<open>s\<close>: when \<open>lastSessionDate\<close> is absent
  (\<open>null\<close> or empty), \<open>currentStreak\<close> becomes 1; otherwise, with \<open>diffDays\<close> the floor of
  the difference of the two dates in days, 0 leaves \<open>currentStreak\<close> unchanged, 1
  increments it by exactly 1, and anything else (a longer gap, a negative one, an invalid
  date) resets it to 1; afterwards \<open>lastSessionDate\<close> is \<open>s\<close>. From
  \<open>lastSessionDate = "2024-01-01"\<close>, the session date \<open>"2024-01-02"\<close> increments the
  streak by 1 and a following \<open>"2024-01-04"\<close> resets it to 1.
\<close>

theorem updateStreak_spec:
  "(s \<noteq> [] \<longrightarrow>
     (let u' = updateStreak getTime todayISO (Some s) u in
        (lastSessionDate u = None \<or> lastSessionDate u = Some [] \<longrightarrow> currentStreak u' = 1)
      \<and> (\<forall>l. lastSessionDate u = Some l \<and> l \<noteq> [] \<longrightarrow>
            (diffDays getTime l s = Some 0 \<longrightarrow> currentStreak u' = currentStreak u)
          \<and> (diffDays getTime l s = Some 1 \<longrightarrow> currentStreak u' = currentStreak u + 1)
          \<and> (diffDays getTime l s \<noteq> Some 0 \<and> diffDays getTime l s \<noteq> Some 1
               \<longrightarrow> currentStreak u' = 1))
      \<and> lastSessionDate u' = Some s))
   \<and> (\<forall>l a b. getTime l = Some a \<and> getTime s = Some b \<longrightarrow>
         diffDays getTime l s = Some ((b - a) div 86400000))
   \<and> (lastSessionDate u = Some ''2024-01-01'' \<longrightarrow>
        (let u1 = updateStreak parseISODate todayISO (Some ''2024-01-02'') u;
             u2 = updateStreak parseISODate todayISO (Some ''2024-01-04'') u1
         in diffDays parseISODate ''2024-01-01'' ''2024-01-02'' = Some 1
            \<and> currentStreak u1 = currentStreak u + 1
            \<and> lastSessionDate u1 = Some ''2024-01-02''
            \<and> diffDays parseISODate ''2024-01-02'' ''2024-01-04'' = Some 2
            \<and> currentStreak u2 = 1
            \<and> lastSessionDate u2 = Some ''2024-01-04''))"
proof -
  have general: "s \<noteq> [] \<longrightarrow>
     (let u' = updateStreak getTime todayISO (Some s) u in
        (lastSessionDate u = None \<or> lastSessionDate u = Some [] \<longrightarrow> currentStreak u' = 1)
      \<and> (\<forall>l. lastSessionDate u = Some l \<and> l \<noteq> [] \<longrightarrow>
            (diffDays getTime l s = Some 0 \<longrightarrow> currentStreak u' = currentStreak u)
          \<and> (diffDays getTime l s = Some 1 \<longrightarrow> currentStreak u' = currentStreak u + 1)
          \<and> (diffDays getTime l s \<noteq> Some 0 \<and> diffDays getTime l s \<noteq> Some 1
               \<longrightarrow> currentStreak u' = 1))
      \<and> lastSessionDate u' = Some s)"
    by (auto simp add: updateStreak_def truthy_def Let_def)
  have days: "\<forall>l a b. getTime l = Some a \<and> getTime s = Some b \<longrightarrow>
         diffDays getTime l s = Some ((b - a) div 86400000)"
    by (simp add: diffDays_div)
  have d1: "diffDays parseISODate ''2024-01-01'' ''2024-01-02'' = Some 1"
    by (simp add: diffDays_div [of parseISODate, OF parse_2024_01_01 parse_2024_01_02])
  have d2: "diffDays parseISODate ''2024-01-02'' ''2024-01-04'' = Some 2"
    by (simp add: diffDays_div [of parseISODate, OF parse_2024_01_02 parse_2024_01_04])
  have concrete: "lastSessionDate u = Some ''2024-01-01'' \<longrightarrow>
        (let u1 = updateStreak parseISODate todayISO (Some ''2024-01-02'') u;
             u2 = updateStreak parseISODate todayISO (Some ''2024-01-04'') u1
         in diffDays parseISODate ''2024-01-01'' ''2024-01-02'' = Some 1
            \<and> currentStreak u1 = currentStreak u + 1
            \<and> lastSessionDate u1 = Some ''2024-01-02''
            \<and> diffDays parseISODate ''2024-01-02'' ''2024-01-04'' = Some 2
            \<and> currentStreak u2 = 1
            \<and> lastSessionDate u2 = Some ''2024-01-04'')"
    by (simp add: updateStreak_def truthy_def Let_def d1 d2)
  from general days concrete show ?thesis
    by blast
qed

text \<open>The claim at the sample user, whose last session was on 2024-01-01 with a streak of 7.\<close>

theorem updateStreak_spec_witness:
  "''2024-01-02'' \<noteq> [] \<and> lastSessionDate idle_user = Some ''2024-01-01''
   \<and> ''2024-01-01'' \<noteq> []
   \<and> diffDays parseISODate ''2024-01-01'' ''2024-01-02'' = Some 1
   \<and> currentStreak (updateStreak parseISODate ''2024-06-01'' (Some ''2024-01-02'') idle_user) = 8
   \<and> currentStreak (updateStreak parseISODate ''2024-06-01'' (Some ''2024-01-04'')
        (updateStreak parseISODate ''2024-06-01'' (Some ''2024-01-02'') idle_user)) = 1"
proof -
  have l: "lastSessionDate idle_user = Some ''2024-01-01''" and c: "currentStreak idle_user = 7"
    by (simp_all add: idle_user_def)
  from updateStreak_spec [of "''2024-01-02''" parseISODate "''2024-06-01''" idle_user] l c
  show ?thesis
    by (simp add: Let_def)
qed

text \<open>
  Claim C7. After every call of \<open>updateStreak\<close>, from any document and with any session
  date, \<open>longestStreak \<ge> currentStreak\<close>; so it holds after the last call of every
  non-empty sequence of calls, whatever the document was at the start.
\<close>

theorem updateStreak_longest_ge_current:
  "longestStreak (updateStreak getTime todayISO d u) \<ge> currentStreak (updateStreak getTime todayISO d u)
   \<and> longestStreak (updateStreaks getTime todayISO (ds @ [d]) u)
       \<ge> currentStreak (updateStreaks getTime todayISO (ds @ [d]) u)"
  by (simp add: updateStreaks_snoc updateStreak_inv)


section \<open>Breed unlocks\<close>

text \<open>
  The loop appends, to both lists, the entries that are due: in the order of the table,
  those whose requirement the kibble meets and whose breed was not unlocked at the start.
  An object has no two entries under one key.
\<close>

lemma unlockLoop_filter:
  "distinct (map fst reqs) \<Longrightarrow>
   unlockLoop k reqs unl newly =
     (newly @ map fst (filter (\<lambda>(b, r). k \<ge> r \<and> b \<notin> set unl) reqs),
      unl @ map fst (filter (\<lambda>(b, r). k \<ge> r \<and> b \<notin> set unl) reqs))"
proof (induction reqs arbitrary: unl newly)
  case Nil
  show ?case by simp
next
  case (Cons e reqs)
  obtain b r where e: "e = (b, r)"
    by (cases e)
  from Cons.prems e have fresh: "b \<notin> fst ` set reqs" and dist: "distinct (map fst reqs)"
    by simp_all
  have same: "filter (\<lambda>(b', r'). k \<ge> r' \<and> b' \<notin> set (unl @ [b])) reqs
            = filter (\<lambda>(b', r'). k \<ge> r' \<and> b' \<notin> set unl) reqs"
    using fresh by (intro filter_cong refl) force
  show ?case
    using Cons.IH [OF dist] same by (simp add: e)
qed

text \<open>
  Claim C9. \<open>checkBreedUnlocks\<close> appends to \<open>unlockedBreeds\<close> every breed of the table
  whose requirement \<open>totalKibble\<close> meets and that is not unlocked yet, and returns exactly
  those breeds, in the order of the table, which is ascending in the requirement for a
  table written in that order, as \<open>BREED_UNLOCK_REQUIREMENTS\<close> is; nothing else of the
  document changes. With the table \<open>{a: 0, b: 100, c: 250}\<close>, 150 kibble and \<open>a\<close>
  unlocked, it returns \<open>[b]\<close> and the unlocked breeds become \<open>a, b\<close>.
\<close>

theorem checkUnlocks_spec:
  "(distinct (map fst reqs) \<longrightarrow>
      (let (newly, u') = checkUnlocks reqs u;
           due = filter (\<lambda>(b, r). totalKibble u \<ge> r \<and> b \<notin> set (unlockedBreeds u)) reqs
       in newly = map fst due
          \<and> unlockedBreeds u' = unlockedBreeds u @ newly
          \<and> set (unlockedBreeds u')
              = set (unlockedBreeds u) \<union> {b. \<exists>r. (b, r) \<in> set reqs \<and> totalKibble u \<ge> r}
          \<and> u' = u\<lparr>unlockedBreeds := unlockedBreeds u'\<rparr>
          \<and> (sorted (map snd reqs) \<longrightarrow> sorted (map snd due))))
   \<and> checkBreedUnlocks u = checkUnlocks BREED_UNLOCK_REQUIREMENTS u
   \<and> distinct (map fst BREED_UNLOCK_REQUIREMENTS)
   \<and> sorted (map snd BREED_UNLOCK_REQUIREMENTS)
   \<and> (totalKibble u = 150 \<and> unlockedBreeds u = [''a''] \<longrightarrow>
        fst (checkUnlocks abc_reqs u) = [''b'']
        \<and> unlockedBreeds (snd (checkUnlocks abc_reqs u)) = [''a'', ''b''])"
proof -
  have general: "(let (newly, u') = checkUnlocks reqs u;
           due = filter (\<lambda>(b, r). totalKibble u \<ge> r \<and> b \<notin> set (unlockedBreeds u)) reqs
       in newly = map fst due
          \<and> unlockedBreeds u' = unlockedBreeds u @ newly
          \<and> set (unlockedBreeds u')
              = set (unlockedBreeds u) \<union> {b. \<exists>r. (b, r) \<in> set reqs \<and> totalKibble u \<ge> r}
          \<and> u' = u\<lparr>unlockedBreeds := unlockedBreeds u'\<rparr>
          \<and> (sorted (map snd reqs) \<longrightarrow> sorted (map snd due)))"
    if d: "distinct (map fst reqs)"
  proof -
    have "set (unlockedBreeds u) \<union>
            fst ` {x \<in> set reqs. case x of (b, r) \<Rightarrow> r \<le> totalKibble u \<and> b \<notin> set (unlockedBreeds u)}
          = set (unlockedBreeds u) \<union> {b. \<exists>r. (b, r) \<in> set reqs \<and> totalKibble u \<ge> r}"
      by force
    then show ?thesis
      by (simp add: checkUnlocks_def unlockLoop_filter [OF d] sorted_filter)
  qed
  have table: "distinct (map fst BREED_UNLOCK_REQUIREMENTS) \<and> sorted (map snd BREED_UNLOCK_REQUIREMENTS)"
    by (simp add: BREED_UNLOCK_REQUIREMENTS_def)
  have concrete: "totalKibble u = 150 \<and> unlockedBreeds u = [''a''] \<longrightarrow>
        fst (checkUnlocks abc_reqs u) = [''b'']
        \<and> unlockedBreeds (snd (checkUnlocks abc_reqs u)) = [''a'', ''b'']"
    by (simp add: checkUnlocks_def abc_reqs_def)
  from general table concrete show ?thesis
    by (simp only: checkBreedUnlocks_def) blast
qed

text \<open>The claim at the sample table and the sample user.\<close>

theorem checkUnlocks_spec_witness:
  "distinct (map fst abc_reqs) \<and> sorted (map snd abc_reqs)
   \<and> totalKibble idle_user = 150 \<and> unlockedBreeds idle_user = [''a'']
   \<and> fst (checkUnlocks abc_reqs idle_user) = [''b'']
   \<and> unlockedBreeds (snd (checkUnlocks abc_reqs idle_user)) = [''a'', ''b'']"
proof -
  have d: "distinct (map fst abc_reqs) \<and> sorted (map snd abc_reqs)"
    by (simp add: abc_reqs_def)
  have k: "totalKibble idle_user = 150 \<and> unlockedBreeds idle_user = [''a'']"
    by (simp add: idle_user_def)
  from checkUnlocks_spec [of abc_reqs idle_user] d k show ?thesis
    by blast
qed

section \<open>Buddy interaction\<close>

text \<open>
  Claim C10. With \<open>totalKibble < 10\<close> the \<open>treat\<close> interaction answers 400 and leaves
  the whole document as it was: no kibble deducted, no stat changed, no timestamp set.
  For every action, a response other than 200 leaves the document unchanged, and a 200
  response stamps \<open>lastBuddyInteraction\<close> with the time of the call.
\<close>

theorem treat_without_kibble:
  "(totalKibble u < 10 \<longrightarrow>
      interact now ''treat'' u = (NotEnoughKibble (totalKibble u), u)
      \<and> httpStatus (fst (interact now ''treat'' u)) = 400)
   \<and> (httpStatus (fst (interact now action u)) \<noteq> 200 \<longrightarrow> snd (interact now action u) = u)
   \<and> (httpStatus (fst (interact now action u)) = 200 \<longrightarrow>
        lastBuddyInteraction (snd (interact now action u)) = now)"
  by (simp add: interact_def interactDone_def Let_def)

text \<open>The claim at the sample user with 9 kibble (refused) and with 150 kibble (served).\<close>

theorem treat_without_kibble_witness:
  "totalKibble (idle_user\<lparr>totalKibble := 9\<rparr>) < 10
   \<and> httpStatus (fst (interact 5000 ''treat'' (idle_user\<lparr>totalKibble := 9\<rparr>))) \<noteq> 200
   \<and> interact 5000 ''treat'' (idle_user\<lparr>totalKibble := 9\<rparr>)
       = (NotEnoughKibble 9, idle_user\<lparr>totalKibble := 9\<rparr>)
   \<and> httpStatus (fst (interact 5000 ''treat'' idle_user)) = 200
   \<and> lastBuddyInteraction (snd (interact 5000 ''treat'' idle_user)) = 5000"
proof -
  have poor: "totalKibble (idle_user\<lparr>totalKibble := 9\<rparr>) < 10"
    by simp
  have rich: "httpStatus (fst (interact 5000 ''treat'' idle_user)) = 200"
    by (simp add: interact_def interactDone_def idle_user_def)
  from treat_without_kibble [of "idle_user\<lparr>totalKibble := 9\<rparr>" 5000 "''treat''"]
       treat_without_kibble [of idle_user 5000 "''treat''"] poor rich
  show ?thesis
    by simp
qed

section \<open>Collection operations\<close>

lemma find_conj_filter: "find (\<lambda>t. P t \<and> Q t) xs = find Q (filter P xs)"
  by (induction xs) simp_all

lemma find_first_conj: "find P xs = Some x \<Longrightarrow> Q x \<Longrightarrow> find (\<lambda>t. P t \<and> Q t) xs = Some x"
  by (induction xs) (auto split: if_splits)

lemma filter_deleteMany: "filter P (deleteMany P st) = []"
  by (induction st) (simp_all add: deleteMany_def)

lemma map_tokenId_save: "map tokenId (save d st) = map tokenId st"
  by (induction st) simp_all

lemma find_save:
  "find P st = Some t \<Longrightarrow> P d \<Longrightarrow> tokenId d = tokenId t \<Longrightarrow> find P (save d st) = Some d"
  by (induction st) (auto split: if_splits)

lemma map_tokenKey_save:
  "distinct (map tokenId st) \<Longrightarrow> t \<in> set st \<Longrightarrow> tokenId d = tokenId t \<Longrightarrow>
   tokenKey d = tokenKey t \<Longrightarrow> map tokenKey (save d st) = map tokenKey st"
  by (induction st) (auto simp add: rev_image_eqI)

lemma set_deleteOne:
  "distinct (map tokenId st) \<Longrightarrow> t \<in> set st \<Longrightarrow> set (deleteOne (tokenId t) st) = set st - {t}"
proof (induction st)
  case Nil
  then show ?case by simp
next
  case (Cons x xs)
  show ?case
  proof (cases "tokenId x = tokenId t")
    case True
    with Cons.prems have "x = t"
      by (auto simp add: rev_image_eqI)
    moreover from Cons.prems have "x \<notin> set xs"
      by auto
    ultimately show ?thesis
      by simp
  next
    case False
    with Cons show ?thesis
      by auto
  qed
qed

lemma only_one_for_user:
  "onePerUser st \<Longrightarrow> t \<in> set st \<Longrightarrow> forUser uid ty t \<Longrightarrow> x \<in> set st \<Longrightarrow> forUser uid ty x \<Longrightarrow> x = t"
  by (auto simp add: onePerUser_def distinct_map forUser_def tokenKey_def inj_on_def)

lemma find_deleteOne_None:
  assumes "distinctIds st" and "onePerUser st" and "t \<in> set st" and "forUser uid ty t"
  shows "find (forUser uid ty) (deleteOne (tokenId t) st) = None"
proof -
  from assms(1,3) have "set (deleteOne (tokenId t) st) = set st - {t}"
    by (simp add: distinctIds_def set_deleteOne)
  with only_one_for_user [OF assms(2,3,4)] show ?thesis
    by (auto simp add: find_None_iff)
qed

section \<open>Verification\<close>

lemma generateOTP_0: "generateOTP 0 = ''100000''"
  by (simp add: generateOTP_def decimal.simps digitChar_def)

lemma lowercase_sample: "lowercase ''U1@Example.com'' = ''u1@example.com''"
  by (simp add: lowercase_def)

lemma issued_eq: "issued = [issued_token]"
  by (simp add: issued_def issued_token_def createOTP_def newToken_def recent_def forUser_def
        deleteMany_def newId_def generateOTP_0 lowercase_sample)

lemma forUser_attempts [simp]: "forUser uid ty (t\<lparr>attempts := a\<rparr>) = forUser uid ty t"
  by (simp add: forUser_def)

lemma verifyOTP_wrong:
  assumes "find (forUser uid ty) st = Some t" and "\<not> expiresAt t < now"
    and "attempts t < maxAttempts t" and "otp t \<noteq> code"
  shows "verifyOTP now uid code ty st =
           (Mismatch (maxAttempts t - (attempts t + 1)), save (t\<lparr>attempts := attempts t + 1\<rparr>) st)"
  using assms by (simp add: verifyOTP_def Let_def)

lemma verifyOTP_exhausted:
  assumes "find (forUser uid ty) st = Some t" and "\<not> expiresAt t < now"
    and "attempts t \<ge> maxAttempts t"
  shows "verifyOTP now uid code ty st = (Exhausted, deleteOne (tokenId t) st)"
  using assms by (simp add: verifyOTP_def)

lemma verifyOTP_not_found:
  "find (forUser uid ty) st = None \<Longrightarrow> verifyOTP now uid code ty st = (NotFound, st)"
  by (simp add: verifyOTP_def)

lemma find_forUser: "find (forUser uid ty) st = Some t \<Longrightarrow> t \<in> set st \<and> forUser uid ty t"
  by (induction st) (auto split: if_splits)

lemma upt_shift: "[Suc 0..<Suc (Suc n)] = Suc 0 # map Suc [Suc 0..<Suc n]"
  by (simp add: map_Suc_upt upt_conv_Cons del: upt_Suc)

lemma verifyOTPs_wrong:
  "find (forUser uid ty) st = Some t \<Longrightarrow>
   \<forall>(n, c) \<in> set cs. \<not> expiresAt t < n \<and> c \<noteq> otp t \<Longrightarrow>
   attempts t + int (length cs) \<le> maxAttempts t \<Longrightarrow>
     fst (verifyOTPs cs uid ty st)
       = map (\<lambda>i. Mismatch (maxAttempts t - attempts t - int i)) [1..<Suc (length cs)]
   \<and> find (forUser uid ty) (snd (verifyOTPs cs uid ty st))
       = Some (t\<lparr>attempts := attempts t + int (length cs)\<rparr>)
   \<and> map tokenId (snd (verifyOTPs cs uid ty st)) = map tokenId st
   \<and> (distinctIds st \<longrightarrow> map tokenKey (snd (verifyOTPs cs uid ty st)) = map tokenKey st)"
proof (induction cs arbitrary: st t)
  case Nil
  then show ?case by simp
next
  case (Cons call cs)
  obtain n c where call: "call = (n, c)"
    by (cases call)
  define t1 where "t1 = t\<lparr>attempts := attempts t + 1\<rparr>"
  define st1 where "st1 = save t1 st"
  from Cons.prems call have ok: "\<not> expiresAt t < n" "c \<noteq> otp t" "attempts t < maxAttempts t"
    by auto
  from Cons.prems(1) have mem: "t \<in> set st" "forUser uid ty t"
    by (simp_all add: find_forUser)
  have step: "verifyOTP n uid c ty st = (Mismatch (maxAttempts t - (attempts t + 1)), st1)"
    using verifyOTP_wrong [OF Cons.prems(1) ok(1) ok(3)] ok(2) by (simp add: st1_def t1_def)
  have found: "find (forUser uid ty) st1 = Some t1"
    unfolding st1_def using Cons.prems(1) mem(2) by (intro find_save) (simp_all add: t1_def)
  have rest: "\<forall>(n, c) \<in> set cs. \<not> expiresAt t1 < n \<and> c \<noteq> otp t1"
    using Cons.prems(2) by (simp add: t1_def)
  have bound: "attempts t1 + int (length cs) \<le> maxAttempts t1"
    using Cons.prems(3) by (simp add: t1_def)
  note ih = Cons.IH [OF found rest bound]
  have ids: "map tokenId st1 = map tokenId st"
    by (simp add: st1_def map_tokenId_save)
  have keys: "distinctIds st \<longrightarrow> map tokenKey st1 = map tokenKey st"
    unfolding st1_def distinctIds_def using mem(1)
    by (auto intro!: map_tokenKey_save simp add: t1_def tokenKey_def)
  have run: "verifyOTPs (call # cs) uid ty st
               = (Mismatch (maxAttempts t - (attempts t + 1)) # fst (verifyOTPs cs uid ty st1),
                  snd (verifyOTPs cs uid ty st1))"
    by (simp add: call step split_beta)
  have results: "Mismatch (maxAttempts t - (attempts t + 1)) # fst (verifyOTPs cs uid ty st1)
       = map (\<lambda>i. Mismatch (maxAttempts t - attempts t - int i)) [1..<Suc (length (call # cs))]"
    using ih by (simp add: upt_shift t1_def comp_def algebra_simps del: upt_Suc)
  have final: "Some (t1\<lparr>attempts := attempts t1 + int (length cs)\<rparr>)
       = Some (t\<lparr>attempts := attempts t + int (length (call # cs))\<rparr>)"
    by (simp add: t1_def algebra_simps)
  from ih ids keys show ?case
    unfolding run fst_conv snd_conv results final
    by (simp add: distinctIds_def)
qed

text \<open>
  Claim C2, as the code has it. A user holds an unexpired code with \<open>attempts = 0\<close> and
  \<open>maxAttempts = m\<close> (5 by default). Then \<open>m\<close> calls of \<open>verifyOTP\<close> with a wrong code
  yield \<open>Mismatch\<close> each, with \<open>remainingAttempts\<close> counting down from \<open>m - 1\<close> to 0 on
  the \<open>m\<close>-th call, and keep the record, its \<open>attempts\<close> now \<open>m\<close>. The call after
  these, whatever code it carries, yields \<open>Exhausted\<close> and deletes the record, and any
  call after that yields \<open>NotFound\<close>.
\<close>

theorem verifyOTP_wrong_until_exhausted:
  assumes found: "find (forUser uid ty) st = Some t"
    and fresh: "attempts t = 0" "maxAttempts t = int m"
    and inv: "distinctIds st" "onePerUser st"
    and calls: "length cs = m" "\<forall>(n, c) \<in> set cs. \<not> expiresAt t < n \<and> c \<noteq> otp t"
    and later: "\<not> expiresAt t < n'"
  shows "fst (verifyOTPs cs uid ty st) = map (\<lambda>i. Mismatch (int m - int i)) [1..<Suc m]
       \<and> (m > 0 \<longrightarrow> last (fst (verifyOTPs cs uid ty st)) = Mismatch 0)
       \<and> find (forUser uid ty) (snd (verifyOTPs cs uid ty st)) = Some (t\<lparr>attempts := int m\<rparr>)
       \<and> fst (verifyOTP n' uid c' ty (snd (verifyOTPs cs uid ty st))) = Exhausted
       \<and> find (forUser uid ty) (snd (verifyOTP n' uid c' ty (snd (verifyOTPs cs uid ty st)))) = None
       \<and> verifyOTP n'' uid c'' ty (snd (verifyOTP n' uid c' ty (snd (verifyOTPs cs uid ty st))))
           = (NotFound, snd (verifyOTP n' uid c' ty (snd (verifyOTPs cs uid ty st))))"
proof -
  define st1 where "st1 = snd (verifyOTPs cs uid ty st)"
  define tm where "tm = t\<lparr>attempts := int m\<rparr>"
  have bound: "attempts t + int (length cs) \<le> maxAttempts t"
    using fresh calls(1) by simp
  note run = verifyOTPs_wrong [OF found calls(2) bound]
  from run fresh calls(1) have results:
    "fst (verifyOTPs cs uid ty st) = map (\<lambda>i. Mismatch (int m - int i)) [1..<Suc m]"
    by simp
  have final: "m > 0 \<longrightarrow> last (fst (verifyOTPs cs uid ty st)) = Mismatch 0"
    unfolding results by (simp add: last_map)
  from run fresh calls(1) have found1: "find (forUser uid ty) st1 = Some tm"
    by (simp add: st1_def tm_def)
  from run inv have inv1: "distinctIds st1" "onePerUser st1"
    by (simp_all add: st1_def distinctIds_def onePerUser_def)
  have full: "attempts tm \<ge> maxAttempts tm" and alive: "\<not> expiresAt tm < n'"
    using fresh later by (simp_all add: tm_def)
  have sixth: "verifyOTP n' uid c' ty st1 = (Exhausted, deleteOne (tokenId tm) st1)"
    by (rule verifyOTP_exhausted [OF found1 alive full])
  from found1 have mem: "tm \<in> set st1" "forUser uid ty tm"
    by (simp_all add: find_forUser)
  have gone: "find (forUser uid ty) (deleteOne (tokenId tm) st1) = None"
    by (rule find_deleteOne_None [OF inv1 mem])
  have after: "verifyOTP n'' uid c'' ty (deleteOne (tokenId tm) st1)
                 = (NotFound, deleteOne (tokenId tm) st1)"
    by (rule verifyOTP_not_found [OF gone])
  from results final found1 sixth gone after show ?thesis
    unfolding st1_def [symmetric] tm_def [symmetric] by simp
qed

text \<open>The sample: five wrong codes against the freshly issued code.\<close>

lemma five_wrong_run:
  "verifyOTPs five_wrong ''u1'' Email issued
     = ([Mismatch 4, Mismatch 3, Mismatch 2, Mismatch 1, Mismatch 0],
        [issued_token\<lparr>attempts := 5\<rparr>])"
  by (simp add: five_wrong_def issued_eq issued_token_def verifyOTP_def forUser_def Let_def)

text \<open>
  The claim at the sample, where the sixth call carries the right code and is refused all
  the same.
\<close>

theorem verifyOTP_wrong_until_exhausted_witness:
  "find (forUser ''u1'' Email) issued = Some issued_token
   \<and> attempts issued_token = 0 \<and> maxAttempts issued_token = int 5
   \<and> distinctIds issued \<and> onePerUser issued \<and> length five_wrong = 5
   \<and> list_all (\<lambda>(n, c). \<not> expiresAt issued_token < n \<and> c \<noteq> otp issued_token) five_wrong
   \<and> \<not> expiresAt issued_token < 6000
   \<and> fst (verifyOTPs five_wrong ''u1'' Email issued)
        = [Mismatch 4, Mismatch 3, Mismatch 2, Mismatch 1, Mismatch 0]
   \<and> fst (verifyOTP 6000 ''u1'' ''100000'' Email (snd (verifyOTPs five_wrong ''u1'' Email issued)))
        = Exhausted
   \<and> fst (verifyOTP 7000 ''u1'' ''100000'' Email
        (snd (verifyOTP 6000 ''u1'' ''100000'' Email (snd (verifyOTPs five_wrong ''u1'' Email issued)))))
        = NotFound"
proof -
  have found: "find (forUser ''u1'' Email) issued = Some issued_token"
    by (simp add: issued_eq issued_token_def forUser_def)
  have fresh: "attempts issued_token = 0" "maxAttempts issued_token = int 5"
    by (simp_all add: issued_token_def)
  have inv: "distinctIds issued" "onePerUser issued"
    by (simp_all add: issued_eq distinctIds_def onePerUser_def)
  have calls: "length five_wrong = 5"
    "\<forall>(n, c) \<in> set five_wrong. \<not> expiresAt issued_token < n \<and> c \<noteq> otp issued_token"
    by (simp_all add: five_wrong_def issued_token_def)
  have later: "\<not> expiresAt issued_token < 6000"
    by (simp add: issued_token_def)
  have idx: "[Suc 0..<6] = [1, 2, 3, 4, 5]"
    by (simp add: upt_rec)
  from verifyOTP_wrong_until_exhausted
         [OF found fresh inv calls later, of "''100000''" 7000 "''100000''"]
       found fresh inv calls later
  show ?thesis
    by (simp add: idx list_all_iff)
qed

text \<open>
  Claim C2 as stated expects \<open>Exhausted\<close> and the deletion on the fifth wrong code. The
  fifth call answers \<open>Mismatch\<close> with no attempt remaining and keeps the record: the
  attempt limit is tested before the code is compared and the counter is incremented
  after it.
\<close>

theorem verifyOTP_fifth_wrong_not_exhausted:
  "last (fst (verifyOTPs five_wrong ''u1'' Email issued)) = Mismatch 0
   \<and> last (fst (verifyOTPs five_wrong ''u1'' Email issued)) \<noteq> Exhausted
   \<and> snd (verifyOTPs five_wrong ''u1'' Email issued) = [issued_token\<lparr>attempts := 5\<rparr>]"
  by (simp add: five_wrong_run)

section \<open>Issuing codes\<close>

lemma createOTP_limited:
  "find (recent (now - 600000) uid ty) st = Some e \<Longrightarrow> resendCount e \<ge> 3 \<Longrightarrow>
   createOTP now rnd uid mail ty st = (Inl (TooManyRequests (waitTime now e)), st)"
  by (simp add: createOTP_def)

lemma createOTP_resend:
  "find (recent (now - 600000) uid ty) st = Some e \<Longrightarrow> resendCount e < 3 \<Longrightarrow>
   createOTP now rnd uid mail ty st =
     (Inr (generateOTP rnd),
      deleteMany (forUser uid ty) st
        @ [newToken (newId (deleteMany (forUser uid ty) st)) now rnd uid mail ty (resendCount e + 1)])"
  by (simp add: createOTP_def Let_def newToken_def)

lemma createOTP_first:
  "find (recent (now - 600000) uid ty) st = None \<Longrightarrow>
   createOTP now rnd uid mail ty st =
     (Inr (generateOTP rnd),
      deleteMany (forUser uid ty) st
        @ [newToken (newId (deleteMany (forUser uid ty) st)) now rnd uid mail ty 0])"
  by (simp add: createOTP_def Let_def newToken_def)

lemma createOTP_cases:
  "fst (createOTP now rnd uid mail ty st) = Inl (TooManyRequests w)
   \<longleftrightarrow> (\<exists>e. find (recent (now - 600000) uid ty) st = Some e \<and> resendCount e \<ge> 3
            \<and> w = waitTime now e)"
  by (cases "find (recent (now - 600000) uid ty) st")
     (auto simp add: createOTP_def Let_def)

lemma find_recent_one:
  "filter (forUser uid ty) st = [e] \<Longrightarrow>
   find (recent a uid ty) st = (if lastResendAt e \<ge> a then Some e else None)"
proof -
  assume one: "filter (forUser uid ty) st = [e]"
  have "find (recent a uid ty) st = find (\<lambda>t. lastResendAt t \<ge> a) (filter (forUser uid ty) st)"
    unfolding recent_def by (rule find_conj_filter)
  then show ?thesis
    by (simp add: one)
qed

lemma find_recent_none:
  "filter (forUser uid ty) st = [] \<Longrightarrow> find (recent a uid ty) st = None"
proof -
  assume none: "filter (forUser uid ty) st = []"
  have "find (recent a uid ty) st = find (\<lambda>t. lastResendAt t \<ge> a) (filter (forUser uid ty) st)"
    unfolding recent_def by (rule find_conj_filter)
  then show ?thesis
    by (simp add: none)
qed

lemma forUser_newToken [simp]: "forUser uid ty (newToken i now rnd uid mail ty k)"
  by (simp add: forUser_def newToken_def)

lemma newToken_fields [simp]:
  "resendCount (newToken i now rnd uid mail ty k) = k"
  "lastResendAt (newToken i now rnd uid mail ty k) = now"
  "otp (newToken i now rnd uid mail ty k) = generateOTP rnd"
  by (simp_all add: newToken_def)

text \<open>\<open>createOTP\<close> keeps both invariants of the collection.\<close>

lemma tokenId_less_newId: "t \<in> set st \<Longrightarrow> tokenId t < newId st"
proof -
  assume "t \<in> set st"
  then have "tokenId t \<in> set (0 # map tokenId st)"
    by simp
  then have "tokenId t \<le> Max (set (0 # map tokenId st))"
    by (intro Max_ge) simp_all
  then show ?thesis
    by (simp only: newId_def Max.set_eq_fold [symmetric])
qed

lemma createOTP_keeps_distinctIds:
  assumes "distinctIds st"
  shows "distinctIds (snd (createOTP now rnd uid mail ty st))"
proof -
  define st1 where "st1 = deleteMany (forUser uid ty) st"
  have d1: "distinct (map tokenId st1)"
    using assms by (simp add: st1_def deleteMany_def distinctIds_def distinct_map_filter)
  have "newId st1 \<notin> tokenId ` set st1"
    using tokenId_less_newId [of _ st1] by force
  with d1 have "distinct (map tokenId (st1 @ [newToken (newId st1) now rnd uid mail ty k]))" for k
    by (simp add: newToken_def)
  with assms show ?thesis
    by (simp add: createOTP_def Let_def distinctIds_def st1_def [symmetric])
qed

lemma createOTP_keeps_onePerUser:
  assumes "onePerUser st"
  shows "onePerUser (snd (createOTP now rnd uid mail ty st))"
proof -
  define st1 where "st1 = deleteMany (forUser uid ty) st"
  have d1: "distinct (map tokenKey st1)"
    using assms by (simp add: st1_def deleteMany_def onePerUser_def distinct_map_filter)
  have "(uid, ty) \<notin> tokenKey ` set st1"
    by (auto simp add: st1_def deleteMany_def forUser_def tokenKey_def)
  with d1 have "distinct (map tokenKey (st1 @ [newToken i now rnd uid mail ty k]))" for i k
    by (simp add: newToken_def tokenKey_def)
  with assms show ?thesis
    by (simp add: createOTP_def Let_def onePerUser_def st1_def [symmetric])
qed

text \<open>
  One call of \<open>createOTP\<close> for a user who holds no record of the type, or exactly one:
  the call leaves exactly one, and its \<open>resendCount\<close> is 0 or one more than before.
\<close>

lemma issue_first:
  assumes "filter (forUser uid ty) st = []"
  shows "fst (createOTP now rnd uid mail ty st) = Inr (generateOTP rnd)
       \<and> (\<exists>tok. filter (forUser uid ty) (snd (createOTP now rnd uid mail ty st)) = [tok]
             \<and> resendCount tok = 0 \<and> lastResendAt tok = now)"
  using createOTP_first [OF find_recent_none [OF assms], of now rnd mail]
  by (simp add: filter_deleteMany)

lemma issue_again:
  assumes "filter (forUser uid ty) st = [e]" and "lastResendAt e \<ge> now - 600000"
    and "resendCount e < 3"
  shows "fst (createOTP now rnd uid mail ty st) = Inr (generateOTP rnd)
       \<and> (\<exists>tok. filter (forUser uid ty) (snd (createOTP now rnd uid mail ty st)) = [tok]
             \<and> resendCount tok = resendCount e + 1 \<and> lastResendAt tok = now)"
proof -
  have "find (recent (now - 600000) uid ty) st = Some e"
    using assms(2) by (simp add: find_recent_one [OF assms(1)])
  from createOTP_resend [OF this assms(3), of rnd mail] show ?thesis
    by (simp add: filter_deleteMany)
qed

lemma issue_refused:
  assumes "filter (forUser uid ty) st = [e]" and "lastResendAt e \<ge> now - 600000"
    and "resendCount e \<ge> 3"
  shows "createOTP now rnd uid mail ty st = (Inl (TooManyRequests (waitTime now e)), st)"
proof -
  have "find (recent (now - 600000) uid ty) st = Some e"
    using assms(2) by (simp add: find_recent_one [OF assms(1)])
  from createOTP_limited [OF this assms(3)] show ?thesis .
qed

text \<open>
  Claim C1, as the code has it. For a user and type with no prior record, five calls of
  \<open>createOTP\<close> within 10 minutes: the first four succeed and the fifth fails with
  \<open>TooManyRequests\<close>, carrying the wait counted from the fourth call. The record's
  \<open>resendCount\<close> is 0 after the first issuance and reaches 3 after the fourth; the failed
  call leaves it as it was.
\<close>

theorem createOTP_fifth_call_limited:
  assumes none: "\<forall>t \<in> set st. \<not> forUser uid ty t"
    and order: "n1 \<le> n2" "n2 \<le> n3" "n3 \<le> n4" "n4 \<le> n5"
    and within: "n5 \<le> n1 + 10 * 60 * 1000"
  shows "map fst (createOTPs [(n1, r1, m1), (n2, r2, m2), (n3, r3, m3), (n4, r4, m4), (n5, r5, m5)]
                    uid ty st)
           = [Inr (generateOTP r1), Inr (generateOTP r2), Inr (generateOTP r3),
              Inr (generateOTP r4),
              Inl (TooManyRequests \<lceil>(of_int (n4 + 10 * 60 * 1000 - n5) :: rat) / 1000 / 60\<rceil>)]
       \<and> map (\<lambda>(r, s). map resendCount (filter (forUser uid ty) s))
           (createOTPs [(n1, r1, m1), (n2, r2, m2), (n3, r3, m3), (n4, r4, m4), (n5, r5, m5)]
              uid ty st)
           = [[0], [1], [2], [3], [3]]"
proof -
  define s1 where "s1 = snd (createOTP n1 r1 uid m1 ty st)"
  define s2 where "s2 = snd (createOTP n2 r2 uid m2 ty s1)"
  define s3 where "s3 = snd (createOTP n3 r3 uid m3 ty s2)"
  define s4 where "s4 = snd (createOTP n4 r4 uid m4 ty s3)"
  from none have "filter (forUser uid ty) st = []"
    by (simp add: filter_empty_conv)
  from issue_first [OF this, of n1 r1 m1]
  obtain t1 where c1: "fst (createOTP n1 r1 uid m1 ty st) = Inr (generateOTP r1)"
    and f1: "filter (forUser uid ty) s1 = [t1]" and k1: "resendCount t1 = 0"
    and l1: "lastResendAt t1 = n1"
    unfolding s1_def by blast
  from issue_again [OF f1, of n2 r2 m2] k1 l1 order within
  obtain t2 where c2: "fst (createOTP n2 r2 uid m2 ty s1) = Inr (generateOTP r2)"
    and f2: "filter (forUser uid ty) s2 = [t2]" and k2: "resendCount t2 = 1"
    and l2: "lastResendAt t2 = n2"
    unfolding s2_def by auto
  from issue_again [OF f2, of n3 r3 m3] k2 l2 order within
  obtain t3 where c3: "fst (createOTP n3 r3 uid m3 ty s2) = Inr (generateOTP r3)"
    and f3: "filter (forUser uid ty) s3 = [t3]" and k3: "resendCount t3 = 2"
    and l3: "lastResendAt t3 = n3"
    unfolding s3_def by auto
  from issue_again [OF f3, of n4 r4 m4] k3 l3 order within
  obtain t4 where c4: "fst (createOTP n4 r4 uid m4 ty s3) = Inr (generateOTP r4)"
    and f4: "filter (forUser uid ty) s4 = [t4]" and k4: "resendCount t4 = 3"
    and l4: "lastResendAt t4 = n4"
    unfolding s4_def by auto
  from issue_refused [OF f4, of n5 r5 m5] k4 l4 order within
  have c5: "createOTP n5 r5 uid m5 ty s4 = (Inl (TooManyRequests (waitTime n5 t4)), s4)"
    by simp
  have w: "waitTime n5 t4 = \<lceil>(of_int (n4 + 10 * 60 * 1000 - n5) :: rat) / 1000 / 60\<rceil>"
    by (simp only: waitTime_def l4)
  have trace: "createOTPs [(n1, r1, m1), (n2, r2, m2), (n3, r3, m3), (n4, r4, m4), (n5, r5, m5)]
                 uid ty st
     = [(Inr (generateOTP r1), s1), (Inr (generateOTP r2), s2), (Inr (generateOTP r3), s3),
        (Inr (generateOTP r4), s4), (Inl (TooManyRequests (waitTime n5 t4)), s4)]"
    using c1 c2 c3 c4 c5
    by (simp add: Let_def prod_eq_iff s1_def [symmetric] s2_def [symmetric] s3_def [symmetric]
          s4_def [symmetric])
  show ?thesis
    unfolding trace w [symmetric] by (simp add: f1 f2 f3 f4 k1 k2 k3 k4)
qed


text \<open>The sample: five requests, one second apart, on an empty collection.\<close>

lemma lowercase_lower: "lowercase ''u1@example.com'' = ''u1@example.com''"
  by (simp add: lowercase_def)

lemma five_requests_trace:
  "map (\<lambda>(r, s). (r, map resendCount s)) (createOTPs five_requests ''u1'' Email [])
     = [(Inr ''100000'', [0]), (Inr ''100000'', [1]), (Inr ''100000'', [2]),
        (Inr ''100000'', [3]), (Inl (TooManyRequests 10), [3])]"
  by (simp add: five_requests_def createOTP_def Let_def recent_def forUser_def deleteMany_def
        newId_def newToken_def waitTime_def generateOTP_0 lowercase_lower)

text \<open>The claim at the sample.\<close>

theorem createOTP_fifth_call_limited_witness:
  "filter (forUser ''u1'' Email) [] = []
   \<and> (0 :: int) \<le> 1000 \<and> (1000 :: int) \<le> 2000 \<and> (2000 :: int) \<le> 3000
   \<and> (3000 :: int) \<le> 4000 \<and> (4000 :: int) \<le> 0 + 10 * 60 * 1000
   \<and> map fst (createOTPs five_requests ''u1'' Email [])
       = [Inr ''100000'', Inr ''100000'', Inr ''100000'', Inr ''100000'',
          Inl (TooManyRequests 10)]
   \<and> map (\<lambda>(r, s). map resendCount (filter (forUser ''u1'' Email) s))
         (createOTPs five_requests ''u1'' Email [])
       = [[0], [1], [2], [3], [3]]"
proof -
  have none: "\<forall>t \<in> set []. \<not> forUser ''u1'' Email t"
    by simp
  have order: "(0 :: int) \<le> 1000" "(1000 :: int) \<le> 2000" "(2000 :: int) \<le> 3000"
    "(3000 :: int) \<le> 4000" "(4000 :: int) \<le> 0 + 10 * 60 * 1000"
    by simp_all
  from createOTP_fifth_call_limited
         [OF none order, where ?r1.0 = 0 and ?r2.0 = 0 and ?r3.0 = 0 and ?r4.0 = 0
            and ?r5.0 = 0 and ?m1.0 = "''u1@example.com''" and ?m2.0 = "''u1@example.com''"
            and ?m3.0 = "''u1@example.com''" and ?m4.0 = "''u1@example.com''"
            and ?m5.0 = "''u1@example.com''"]
  show ?thesis
    by (simp add: five_requests_def generateOTP_0)
qed

text \<open>
  Claim C1 as stated expects the fourth call to fail and \<open>resendCount\<close> to be 3 after the
  third issuance. At the sample the fourth call returns a code, and the record's
  \<open>resendCount\<close> after the third issuance is 2: the first issuance counts 0, and the limit
  is on resends (the code's comment: max 3 resends per 10 minutes).
\<close>

theorem createOTP_fourth_call_succeeds:
  "fst (createOTPs five_requests ''u1'' Email [] ! 3) = Inr ''100000''
   \<and> map resendCount (snd (createOTPs five_requests ''u1'' Email [] ! 2)) = [2]"
proof -
  have len: "length (createOTPs five_requests ''u1'' Email []) = 5"
    using five_requests_trace [THEN arg_cong, of length] by simp
  have nth: "map (\<lambda>(r, s). (r, map resendCount s)) (createOTPs five_requests ''u1'' Email []) ! k
               = (fst (createOTPs five_requests ''u1'' Email [] ! k),
                  map resendCount (snd (createOTPs five_requests ''u1'' Email [] ! k)))"
    if "k < 5" for k
    using that len by (simp add: split_beta)
  from nth [of 3] nth [of 2] show ?thesis
    unfolding five_requests_trace by simp
qed

subsection \<open>The rate limit\<close>

text \<open>Under the invariant, a user's record of a type is the only one \<open>findOne\<close> can meet.\<close>

lemma filter_key_one:
  "distinct (map f xs) \<Longrightarrow> e \<in> set xs \<Longrightarrow> filter (\<lambda>x. f x = f e) xs = [e]"
proof (induction xs)
  case Nil
  then show ?case by simp
next
  case (Cons x xs)
  show ?case
  proof (cases "x = e")
    case True
    from Cons.prems have "\<forall>y \<in> set xs. f y \<noteq> f e"
      using True by (auto simp add: image_iff)
    then have "filter (\<lambda>x. f x = f e) xs = []"
      by (simp add: filter_empty_conv)
    with True show ?thesis
      by simp
  next
    case False
    with Cons.prems have mem: "e \<in> set xs" and dist: "distinct (map f xs)"
      and new: "f x \<notin> f ` set xs"
      by simp_all
    from new mem have "f x \<noteq> f e"
      by (auto simp add: image_iff)
    with Cons.IH [OF dist mem] show ?thesis
      by simp
  qed
qed

lemma filter_forUser_one:
  assumes "onePerUser st" and "e \<in> set st" and "forUser uid ty e"
  shows "filter (forUser uid ty) st = [e]"
proof -
  have "forUser uid ty = (\<lambda>x. tokenKey x = tokenKey e)"
    using assms(3) by (auto simp add: forUser_def tokenKey_def fun_eq_iff)
  with filter_key_one [of tokenKey st e] assms(1,2) show ?thesis
    by (simp add: onePerUser_def)
qed

text \<open>The wait is the remaining time in minutes, rounded up.\<close>

lemma waitTime_div: "waitTime now e = - ((now - lastResendAt e - 600000) div 60000)"
proof -
  define y where "y = now - lastResendAt e - 600000"
  have "lastResendAt e + 10 * 60 * 1000 - now = - y"
    by (simp add: y_def)
  then have "waitTime now e = \<lceil>(of_int (- y) :: rat) / 1000 / 60\<rceil>"
    by (simp only: waitTime_def)
  also have "(of_int (- y) :: rat) / 1000 / 60 = - (of_int y / of_int 60000)"
    by simp
  finally have "waitTime now e = - \<lfloor>(of_int y :: rat) / of_int 60000\<rfloor>"
    by (simp only: ceiling_def minus_minus)
  then show ?thesis
    by (simp only: floor_divide_of_int_eq y_def)
qed

lemma waitTime_nonneg: "lastResendAt e \<ge> now - 600000 \<Longrightarrow> 0 \<le> waitTime now e"
  unfolding waitTime_div by (simp add: div_le_mono neg_imp_zdiv_nonneg_iff pos_imp_zdiv_neg_iff)


text \<open>
  Claim C5, as the code has it. In a collection with at most one record per user and
  type, \<open>createOTP\<close> fails with \<open>TooManyRequests\<close> if and only if a record of the user and
  type exists whose \<open>lastResendAt\<close> is within the last 10 minutes and whose
  \<open>resendCount\<close> is at least 3. The failure leaves the collection unchanged and carries
  the wait in minutes, \<open>ceil((lastResendAt + 10 min - now) / 1000 / 60)\<close> with the times
  in milliseconds: the remaining milliseconds divided by 60000 and rounded up, never
  negative.
\<close>

theorem createOTP_rate_limited_iff:
  assumes inv: "onePerUser st"
  shows "((\<exists>w. fst (createOTP now rnd uid mail ty st) = Inl (TooManyRequests w))
            \<longleftrightarrow> (\<exists>e \<in> set st. forUser uid ty e \<and> lastResendAt e \<ge> now - 10 * 60 * 1000
                     \<and> resendCount e \<ge> 3))
       \<and> (\<forall>e \<in> set st. forUser uid ty e \<and> lastResendAt e \<ge> now - 10 * 60 * 1000
                     \<and> resendCount e \<ge> 3 \<longrightarrow>
             createOTP now rnd uid mail ty st
               = (Inl (TooManyRequests
                    \<lceil>(of_int (lastResendAt e + 10 * 60 * 1000 - now) :: rat) / 1000 / 60\<rceil>), st)
             \<and> \<lceil>(of_int (lastResendAt e + 10 * 60 * 1000 - now) :: rat) / 1000 / 60\<rceil>
                 = - ((now - lastResendAt e - 600000) div 60000)
             \<and> 0 \<le> \<lceil>(of_int (lastResendAt e + 10 * 60 * 1000 - now) :: rat) / 1000 / 60\<rceil>)"
proof -
  have refused: "createOTP now rnd uid mail ty st = (Inl (TooManyRequests (waitTime now e)), st)"
    if "e \<in> set st" "forUser uid ty e" "lastResendAt e \<ge> now - 600000" "resendCount e \<ge> 3"
    for e
    using issue_refused [OF filter_forUser_one [OF inv that(1,2)] that(3,4)] .
  have only_if: "\<exists>e \<in> set st. forUser uid ty e \<and> lastResendAt e \<ge> now - 600000 \<and> resendCount e \<ge> 3"
    if "fst (createOTP now rnd uid mail ty st) = Inl (TooManyRequests w)" for w
  proof -
    from that obtain e where e: "find (recent (now - 600000) uid ty) st = Some e"
      and count: "resendCount e \<ge> 3"
      by (auto simp add: createOTP_cases)
    from e have "e \<in> set st" "recent (now - 600000) uid ty e"
      by (auto simp add: find_Some_iff)
    with count show ?thesis
      by (auto simp add: recent_def)
  qed
  have first: "(\<exists>w. fst (createOTP now rnd uid mail ty st) = Inl (TooManyRequests w))
            \<longleftrightarrow> (\<exists>e \<in> set st. forUser uid ty e \<and> lastResendAt e \<ge> now - 10 * 60 * 1000
                     \<and> resendCount e \<ge> 3)"
  proof
    assume "\<exists>w. fst (createOTP now rnd uid mail ty st) = Inl (TooManyRequests w)"
    then show "\<exists>e \<in> set st. forUser uid ty e \<and> lastResendAt e \<ge> now - 10 * 60 * 1000
                     \<and> resendCount e \<ge> 3"
      using only_if by auto
  next
    assume "\<exists>e \<in> set st. forUser uid ty e \<and> lastResendAt e \<ge> now - 10 * 60 * 1000
                     \<and> resendCount e \<ge> 3"
    then obtain e where "e \<in> set st" "forUser uid ty e" "lastResendAt e \<ge> now - 600000"
      "resendCount e \<ge> 3"
      by auto
    from refused [OF this] show "\<exists>w. fst (createOTP now rnd uid mail ty st) = Inl (TooManyRequests w)"
      by simp
  qed
  have second: "createOTP now rnd uid mail ty st
               = (Inl (TooManyRequests
                    \<lceil>(of_int (lastResendAt e + 10 * 60 * 1000 - now) :: rat) / 1000 / 60\<rceil>), st)
             \<and> \<lceil>(of_int (lastResendAt e + 10 * 60 * 1000 - now) :: rat) / 1000 / 60\<rceil>
                 = - ((now - lastResendAt e - 600000) div 60000)
             \<and> 0 \<le> \<lceil>(of_int (lastResendAt e + 10 * 60 * 1000 - now) :: rat) / 1000 / 60\<rceil>"
    if "e \<in> set st" "forUser uid ty e \<and> lastResendAt e \<ge> now - 10 * 60 * 1000 \<and> resendCount e \<ge> 3"
    for e
  proof -
    from that have h: "forUser uid ty e" "lastResendAt e \<ge> now - 600000" "resendCount e \<ge> 3"
      by simp_all
    from refused [OF that(1) h] waitTime_div [of now e] waitTime_nonneg [OF h(2)]
    show ?thesis
      by (simp only: waitTime_def)
  qed
  from first second show ?thesis
    by blast
qed

text \<open>The sample: a record resent three times, and a request five minutes after the last.\<close>

lemma limited_run:
  "createOTP 300000 0 ''u1'' ''u1@example.com'' Email [limited_token]
     = (Inl (TooManyRequests 5), [limited_token])"
  by (simp add: createOTP_def recent_def forUser_def waitTime_def limited_token_def
        issued_token_def)

text \<open>The claim at the sample: five minutes remain.\<close>

theorem createOTP_rate_limited_iff_witness:
  "onePerUser [limited_token]
   \<and> limited_token \<in> set [limited_token] \<and> forUser ''u1'' Email limited_token
   \<and> lastResendAt limited_token \<ge> 300000 - 10 * 60 * 1000 \<and> resendCount limited_token \<ge> 3
   \<and> createOTP 300000 0 ''u1'' ''u1@example.com'' Email [limited_token]
       = (Inl (TooManyRequests 5), [limited_token])
   \<and> - ((300000 - lastResendAt limited_token - 600000) div 60000) = 5"
proof -
  have inv: "onePerUser [limited_token]"
    by (simp add: onePerUser_def)
  have rec: "forUser ''u1'' Email limited_token"
    "lastResendAt limited_token \<ge> 300000 - 10 * 60 * 1000" "resendCount limited_token \<ge> 3"
    by (simp_all add: forUser_def limited_token_def issued_token_def)
  have l: "lastResendAt limited_token = 0"
    by (simp add: limited_token_def issued_token_def)
  from createOTP_rate_limited_iff
         [OF inv, of 300000 0 "''u1''" "''u1@example.com''" Email] rec inv
  show ?thesis
    by (simp add: l)
qed

lemma spec_wait_sample: "specWaitTime 300000 limited_token = 1"
proof -
  have "specWaitTime 300000 limited_token = \<lceil>(of_int 300000 :: rat) / of_int 3600000\<rceil>"
    by (simp add: specWaitTime_def limited_token_def issued_token_def)
  also have "\<dots> = - (- 300000 div 3600000)"
    unfolding ceiling_def
    by (simp only: floor_divide_of_int_eq of_int_minus [symmetric] minus_divide_left)
  finally show ?thesis
    by simp
qed

text \<open>
  Claim C5 as stated computes the wait as \<open>ceil((lastResendAt + 10min - now) / 60s /
  60)\<close>, which divides the remaining minutes by 60 again. With five minutes remaining the
  code reports 5 and that formula 1.
\<close>

theorem createOTP_wait_not_spec_formula:
  "fst (createOTP 300000 0 ''u1'' ''u1@example.com'' Email [limited_token])
     = Inl (TooManyRequests 5)
   \<and> specWaitTime 300000 limited_token = 1"
  by (simp only: limited_run spec_wait_sample fst_conv)

section \<open>Password reset\<close>

lemma verifyResetOtp_verified:
  assumes "verifyResetOtp now tok uid code d = (OtpVerified tok' uid', d')"
  shows "\<exists>t. find (forUser uid Password) (tokens d) = Some t \<and> otp t = code
           \<and> \<not> expiresAt t < now \<and> attempts t < maxAttempts t
           \<and> d' = d\<lparr>tokens := save (t\<lparr>resetToken := Some tok,
                                       resetTokenExpiresAt := Some (now + 5 * 60 * 1000)\<rparr>)
                                 (tokens d)\<rparr>
           \<and> tok' = tok \<and> uid' = uid \<and> users d uid \<noteq> None \<and> uid \<noteq> [] \<and> sixDigits code"
  using assms
  by (auto simp add: verifyResetOtp_def Let_def split: if_splits option.splits)

lemma resetPassword_success:
  assumes "resetPassword now uid tok password d = (PasswordReset, d')"
  shows "\<exists>t. find (\<lambda>t. userId t = uid \<and> ttype t = Password \<and> resetToken t = Some tok) (tokens d)
               = Some t
           \<and> \<not> resetTokenStale now t
           \<and> d' = d\<lparr>users := (users d)(uid \<mapsto> Some password),
                      tokens := deleteOne (tokenId t) (tokens d)\<rparr>"
  using assms
  by (auto simp add: resetPassword_def split: if_splits option.splits)

lemma resetPassword_mismatch:
  assumes "uid \<noteq> []" "tok \<noteq> []" "length password \<ge> 6"
    and "\<forall>t \<in> set (tokens d). \<not> (userId t = uid \<and> ttype t = Password \<and> resetToken t = Some tok)"
  shows "resetPassword now uid tok password d = (InvalidOrExpiredToken, d)"
proof -
  from assms(4)
  have "find (\<lambda>t. userId t = uid \<and> ttype t = Password \<and> resetToken t = Some tok) (tokens d) = None"
    by (simp add: find_None_iff)
  with assms(1,2,3) show ?thesis
    by (auto simp add: resetPassword_def)
qed

lemma resetPassword_stale:
  assumes "uid \<noteq> []" "tok \<noteq> []" "length password \<ge> 6"
    and "find (\<lambda>t. userId t = uid \<and> ttype t = Password \<and> resetToken t = Some tok) (tokens d)
           = Some t"
    and "resetTokenStale now t"
  shows "resetPassword now uid tok password d
           = (ResetTokenExpired, d\<lparr>tokens := deleteOne (tokenId t) (tokens d)\<rparr>)"
  using assms by (auto simp add: resetPassword_def)

lemma resetPassword_fresh:
  assumes "uid \<noteq> []" "tok \<noteq> []" "length password \<ge> 6"
    and "find (\<lambda>t. userId t = uid \<and> ttype t = Password \<and> resetToken t = Some tok) (tokens d)
           = Some t"
    and "\<not> resetTokenStale now t" and "users d uid \<noteq> None"
  shows "resetPassword now uid tok password d
           = (PasswordReset, d\<lparr>users := (users d)(uid \<mapsto> Some password),
                                tokens := deleteOne (tokenId t) (tokens d)\<rparr>)"
  using assms by (auto simp add: resetPassword_def)


lemma forUser_reset_fields [simp]:
  "forUser uid ty (t\<lparr>resetToken := a, resetTokenExpiresAt := b\<rparr>) = forUser uid ty t"
  by (simp add: forUser_def)

lemma find_reset_token:
  assumes "find (forUser uid Password) st = Some t" and "resetToken t = Some tok"
  shows "find (\<lambda>t. userId t = uid \<and> ttype t = Password \<and> resetToken t = Some tok) st = Some t"
proof -
  have "find (\<lambda>x. forUser uid Password x \<and> resetToken x = Some tok) st = Some t"
    using assms by (rule find_first_conj)
  then show ?thesis
    by (simp add: forUser_def conj_assoc)
qed

lemma handoff:
  assumes "verifyResetOtp now tok uid code d = (OtpVerified tok' uid', d')"
  shows "\<exists>t. find (forUser uid Password) (tokens d) = Some t \<and> otp t = code
           \<and> tokens d' = save (t\<lparr>resetToken := Some tok,
                                   resetTokenExpiresAt := Some (now + 5 * 60 * 1000)\<rparr>) (tokens d)
           \<and> find (forUser uid Password) (tokens d')
               = Some (t\<lparr>resetToken := Some tok,
                         resetTokenExpiresAt := Some (now + 5 * 60 * 1000)\<rparr>)
           \<and> map tokenId (tokens d') = map tokenId (tokens d)
           \<and> users d' = users d \<and> users d uid \<noteq> None \<and> uid \<noteq> [] \<and> tok' = tok \<and> uid' = uid"
proof -
  from verifyResetOtp_verified [OF assms] obtain t
    where t: "find (forUser uid Password) (tokens d) = Some t" "otp t = code"
      and d': "d' = d\<lparr>tokens := save (t\<lparr>resetToken := Some tok,
                                       resetTokenExpiresAt := Some (now + 5 * 60 * 1000)\<rparr>)
                                 (tokens d)\<rparr>"
      and rest: "tok' = tok" "uid' = uid" "users d uid \<noteq> None" "uid \<noteq> []"
    by blast
  from t(1) have "forUser uid Password t"
    by (simp add: find_forUser)
  with t(1)
  have "find (forUser uid Password)
          (save (t\<lparr>resetToken := Some tok, resetTokenExpiresAt := Some (now + 5 * 60 * 1000)\<rparr>)
             (tokens d))
        = Some (t\<lparr>resetToken := Some tok, resetTokenExpiresAt := Some (now + 5 * 60 * 1000)\<rparr>)"
    by (intro find_save) simp_all
  with t d' rest show ?thesis
    by (auto simp add: map_tokenId_save)
qed

lemma consume:
  assumes "resetPassword now uid tok password d = (PasswordReset, d')"
  shows "\<exists>t \<in> set (tokens d). userId t = uid \<and> ttype t = Password \<and> resetToken t = Some tok
           \<and> \<not> resetTokenStale now t
           \<and> tokens d' = deleteOne (tokenId t) (tokens d)
           \<and> (distinctIds (tokens d) \<longrightarrow> t \<notin> set (tokens d'))
           \<and> users d' = (users d)(uid \<mapsto> Some password)"
proof -
  from resetPassword_success [OF assms] obtain t
    where t: "find (\<lambda>t. userId t = uid \<and> ttype t = Password \<and> resetToken t = Some tok) (tokens d)
                = Some t"
      and fresh: "\<not> resetTokenStale now t"
      and d': "d' = d\<lparr>users := (users d)(uid \<mapsto> Some password),
                      tokens := deleteOne (tokenId t) (tokens d)\<rparr>"
    by blast
  from t have mem: "t \<in> set (tokens d)"
    and key: "userId t = uid \<and> ttype t = Password \<and> resetToken t = Some tok"
    by (auto simp add: find_Some_iff)
  have "distinctIds (tokens d) \<longrightarrow> t \<notin> set (deleteOne (tokenId t) (tokens d))"
    using mem by (simp add: distinctIds_def set_deleteOne)
  with mem key fresh d' show ?thesis
    by auto
qed

lemma roundtrip:
  assumes ok: "verifyResetOtp now tok uid code d = (OtpVerified tok' uid', d')"
    and req: "tok \<noteq> []" "length password \<ge> 6"
  shows "(later \<le> now + 5 * 60 * 1000 \<longrightarrow>
            fst (resetPassword later uid tok password d') = PasswordReset)
       \<and> (later > now + 5 * 60 * 1000 \<longrightarrow>
            fst (resetPassword later uid tok password d') = ResetTokenExpired)"
proof -
  from handoff [OF ok] obtain t
    where found: "find (forUser uid Password) (tokens d')
               = Some (t\<lparr>resetToken := Some tok,
                         resetTokenExpiresAt := Some (now + 5 * 60 * 1000)\<rparr>)"
      and user: "users d' uid \<noteq> None" "uid \<noteq> []"
    by auto
  define t' where "t' = t\<lparr>resetToken := Some tok,
                         resetTokenExpiresAt := Some (now + 5 * 60 * 1000)\<rparr>"
  have match: "find (\<lambda>t. userId t = uid \<and> ttype t = Password \<and> resetToken t = Some tok) (tokens d')
                 = Some t'"
    using found unfolding t'_def [symmetric] by (rule find_reset_token) (simp add: t'_def)
  have stale: "resetTokenStale later t' \<longleftrightarrow> later > now + 5 * 60 * 1000"
    by (simp add: resetTokenStale_def t'_def)
  show ?thesis
  proof (cases "later > now + 5 * 60 * 1000")
    case True
    with stale resetPassword_stale [OF user(2) req match, of later] show ?thesis
      by simp
  next
    case False
    with stale resetPassword_fresh [OF user(2) req match _ user(1), of later] show ?thesis
      by simp
  qed
qed

text \<open>
  Claim C4. A successful \<open>verify-reset-otp\<close> keeps the record and stores on it the reset
  token drawn and \<open>resetTokenExpiresAt = now + 5 minutes\<close>; nothing else of the database
  changes, and a \<open>reset-password\<close> with that token then succeeds up to five minutes later
  and fails as expired after that. A \<open>reset-password\<close> succeeds only when a record of the
  collection matches the user, the type \<open>password\<close> and the reset token, and its
  \<open>resetTokenExpiresAt\<close> has not passed; on success the password is set and the record is
  deleted. For a well-formed request (all fields present, a password of six characters or
  more), a token that matches no record and a token whose record has expired both fail
  with one of the two responses that make up \<open>InvalidResetToken\<close>.
\<close>

theorem password_reset_handoff:
  "(verifyResetOtp now tok uid code d = (OtpVerified tok' uid', d') \<longrightarrow>
      (\<exists>t. find (forUser uid Password) (tokens d) = Some t \<and> otp t = code
           \<and> tokens d' = save (t\<lparr>resetToken := Some tok,
                                   resetTokenExpiresAt := Some (now + 5 * 60 * 1000)\<rparr>) (tokens d)
           \<and> find (forUser uid Password) (tokens d')
               = Some (t\<lparr>resetToken := Some tok,
                         resetTokenExpiresAt := Some (now + 5 * 60 * 1000)\<rparr>)
           \<and> map tokenId (tokens d') = map tokenId (tokens d)
           \<and> users d' = users d \<and> tok' = tok \<and> uid' = uid)
      \<and> (tok \<noteq> [] \<and> length password \<ge> 6 \<longrightarrow>
           (later \<le> now + 5 * 60 * 1000 \<longrightarrow>
              fst (resetPassword later uid tok password d') = PasswordReset)
           \<and> (later > now + 5 * 60 * 1000 \<longrightarrow>
              fst (resetPassword later uid tok password d') = ResetTokenExpired)))
   \<and> (resetPassword now uid tok password d = (PasswordReset, d') \<longrightarrow>
        (\<exists>t \<in> set (tokens d). userId t = uid \<and> ttype t = Password \<and> resetToken t = Some tok
           \<and> \<not> resetTokenStale now t
           \<and> tokens d' = deleteOne (tokenId t) (tokens d)
           \<and> (distinctIds (tokens d) \<longrightarrow> t \<notin> set (tokens d'))
           \<and> users d' = (users d)(uid \<mapsto> Some password)))
   \<and> (uid \<noteq> [] \<and> tok \<noteq> [] \<and> length password \<ge> 6 \<longrightarrow>
        ((\<forall>t \<in> set (tokens d).
             \<not> (userId t = uid \<and> ttype t = Password \<and> resetToken t = Some tok)) \<longrightarrow>
           resetPassword now uid tok password d = (InvalidOrExpiredToken, d)
           \<and> invalidResetToken (fst (resetPassword now uid tok password d)))
        \<and> (\<forall>t. find (\<lambda>t. userId t = uid \<and> ttype t = Password \<and> resetToken t = Some tok)
                  (tokens d) = Some t \<and> resetTokenStale now t \<longrightarrow>
           resetPassword now uid tok password d
             = (ResetTokenExpired, d\<lparr>tokens := deleteOne (tokenId t) (tokens d)\<rparr>)
           \<and> invalidResetToken (fst (resetPassword now uid tok password d))))
   \<and> (resetTokenStale now t0 \<longleftrightarrow> (\<exists>e. resetTokenExpiresAt t0 = Some e \<and> e < now))"
proof -
  have a: "\<exists>t. find (forUser uid Password) (tokens d) = Some t \<and> otp t = code
           \<and> tokens d' = save (t\<lparr>resetToken := Some tok,
                                   resetTokenExpiresAt := Some (now + 5 * 60 * 1000)\<rparr>) (tokens d)
           \<and> find (forUser uid Password) (tokens d')
               = Some (t\<lparr>resetToken := Some tok,
                         resetTokenExpiresAt := Some (now + 5 * 60 * 1000)\<rparr>)
           \<and> map tokenId (tokens d') = map tokenId (tokens d)
           \<and> users d' = users d \<and> tok' = tok \<and> uid' = uid"
    if "verifyResetOtp now tok uid code d = (OtpVerified tok' uid', d')"
    using handoff [OF that] by blast
  have b: "(later \<le> now + 5 * 60 * 1000 \<longrightarrow>
              fst (resetPassword later uid tok password d') = PasswordReset)
           \<and> (later > now + 5 * 60 * 1000 \<longrightarrow>
              fst (resetPassword later uid tok password d') = ResetTokenExpired)"
    if "verifyResetOtp now tok uid code d = (OtpVerified tok' uid', d')"
      and "tok \<noteq> [] \<and> length password \<ge> 6"
    using roundtrip [OF that(1), of password later] that(2) by blast
  have c: "\<exists>t \<in> set (tokens d). userId t = uid \<and> ttype t = Password \<and> resetToken t = Some tok
           \<and> \<not> resetTokenStale now t
           \<and> tokens d' = deleteOne (tokenId t) (tokens d)
           \<and> (distinctIds (tokens d) \<longrightarrow> t \<notin> set (tokens d'))
           \<and> users d' = (users d)(uid \<mapsto> Some password)"
    if "resetPassword now uid tok password d = (PasswordReset, d')"
    using consume [OF that] .
  have e: "resetPassword now uid tok password d = (InvalidOrExpiredToken, d)
           \<and> invalidResetToken (fst (resetPassword now uid tok password d))"
    if "uid \<noteq> [] \<and> tok \<noteq> [] \<and> length password \<ge> 6"
      and "\<forall>t \<in> set (tokens d).
             \<not> (userId t = uid \<and> ttype t = Password \<and> resetToken t = Some tok)"
    using resetPassword_mismatch [of uid tok password d now] that
    by (simp add: invalidResetToken_def)
  have f: "resetPassword now uid tok password d
             = (ResetTokenExpired, d\<lparr>tokens := deleteOne (tokenId t) (tokens d)\<rparr>)
           \<and> invalidResetToken (fst (resetPassword now uid tok password d))"
    if "uid \<noteq> [] \<and> tok \<noteq> [] \<and> length password \<ge> 6"
      and "find (\<lambda>t. userId t = uid \<and> ttype t = Password \<and> resetToken t = Some tok)
                  (tokens d) = Some t \<and> resetTokenStale now t" for t
    using resetPassword_stale [of uid tok password d t now] that
    by (simp add: invalidResetToken_def)
  have g: "resetTokenStale now t0 \<longleftrightarrow> (\<exists>e. resetTokenExpiresAt t0 = Some e \<and> e < now)"
    by (simp add: resetTokenStale_def split: option.splits)
  from a b c e f g show ?thesis
    by blast
qed

text \<open>The sample: the code verified at time 1000, the password reset at time 200000.\<close>

lemma verify_sample:
  "verifyResetOtp 1000 ''tok'' ''u1'' ''100000'' reset_db = (OtpVerified ''tok'' ''u1'', verified_db)"
  by (simp add: verifyResetOtp_def sixDigits_def digit_def reset_db_def verified_db_def
        verified_token_def reset_token_def issued_token_def forUser_def)

lemma reset_sample:
  "resetPassword 200000 ''u1'' ''tok'' ''new-password'' verified_db = (PasswordReset, changed_db)"
  by (simp add: resetPassword_def resetTokenStale_def verified_db_def changed_db_def reset_db_def
        verified_token_def reset_token_def issued_token_def)

lemma verified_find:
  "find (\<lambda>t. userId t = ''u1'' \<and> ttype t = Password \<and> resetToken t = Some ''tok'')
     (tokens verified_db) = Some verified_token"
  by (simp add: verified_db_def verified_token_def reset_token_def issued_token_def)

text \<open>
  The claim at the sample: the handoff, the reset within five minutes, a token that
  matches no record, and the same token after it expired.
\<close>

theorem password_reset_handoff_witness:
  "verifyResetOtp 1000 ''tok'' ''u1'' ''100000'' reset_db = (OtpVerified ''tok'' ''u1'', verified_db)
   \<and> ''tok'' \<noteq> [] \<and> length ''new-password'' \<ge> 6 \<and> (200000 :: int) \<le> 1000 + 5 * 60 * 1000
   \<and> fst (resetPassword 200000 ''u1'' ''tok'' ''new-password'' verified_db) = PasswordReset
   \<and> resetPassword 200000 ''u1'' ''tok'' ''new-password'' verified_db = (PasswordReset, changed_db)
   \<and> distinctIds (tokens verified_db)
   \<and> (\<exists>t \<in> set (tokens verified_db). resetToken t = Some ''tok'' \<and> t \<notin> set (tokens changed_db))
   \<and> ''u1'' \<noteq> []
   \<and> find (\<lambda>t. userId t = ''u1'' \<and> ttype t = Password \<and> resetToken t = Some ''nope'')
         (tokens verified_db) = None
   \<and> resetPassword 200000 ''u1'' ''nope'' ''new-password'' verified_db
        = (InvalidOrExpiredToken, verified_db)
   \<and> resetTokenStale 400000 verified_token
   \<and> fst (resetPassword 400000 ''u1'' ''tok'' ''new-password'' verified_db) = ResetTokenExpired"
proof -
  have req: "''u1'' \<noteq> [] \<and> ''tok'' \<noteq> [] \<and> length ''new-password'' \<ge> 6"
    "''u1'' \<noteq> [] \<and> ''nope'' \<noteq> [] \<and> length ''new-password'' \<ge> 6"
    "''tok'' \<noteq> [] \<and> length ''new-password'' \<ge> 6"
    by simp_all
  have ids: "distinctIds (tokens verified_db)"
    by (simp add: distinctIds_def verified_db_def)
  have other: "\<forall>t \<in> set (tokens verified_db).
         \<not> (userId t = ''u1'' \<and> ttype t = Password \<and> resetToken t = Some ''nope'')"
    by (simp add: verified_db_def verified_token_def)
  have stale: "resetTokenStale 400000 verified_token"
    by (simp add: resetTokenStale_def verified_token_def)
  note verified = password_reset_handoff
            [where now = 1000 and tok = "''tok''" and uid = "''u1''" and code = "''100000''"
               and d = reset_db and tok' = "''tok''" and uid' = "''u1''" and d' = verified_db
               and password = "''new-password''" and later = 200000, THEN conjunct1, THEN mp,
             OF verify_sample]
  have roundtrip: "fst (resetPassword 200000 ''u1'' ''tok'' ''new-password'' verified_db) = PasswordReset"
    using verified [THEN conjunct2, THEN mp, OF req(3), THEN conjunct1] by simp
  note used = password_reset_handoff
            [where now = 200000 and tok = "''tok''" and uid = "''u1''"
               and d = verified_db and d' = changed_db and password = "''new-password''",
             THEN conjunct2, THEN conjunct1, THEN mp, OF reset_sample]
  from used obtain t where t: "t \<in> set (tokens verified_db)" "resetToken t = Some ''tok''"
    "distinctIds (tokens verified_db) \<longrightarrow> t \<notin> set (tokens changed_db)"
    by blast
  from t ids have consumed: "\<exists>t \<in> set (tokens verified_db). resetToken t = Some ''tok''
                    \<and> t \<notin> set (tokens changed_db)"
    by blast
  note refused = password_reset_handoff
            [where now = 200000 and tok = "''nope''" and uid = "''u1''"
               and d = verified_db and password = "''new-password''",
             THEN conjunct2, THEN conjunct2, THEN conjunct1, THEN mp, OF req(2),
             THEN conjunct1, THEN mp, OF other]
  have mismatch: "resetPassword 200000 ''u1'' ''nope'' ''new-password'' verified_db
        = (InvalidOrExpiredToken, verified_db)"
    using refused by (rule conjunct1)
  note late = password_reset_handoff
            [where now = 400000 and tok = "''tok''" and uid = "''u1''"
               and d = verified_db and password = "''new-password''",
             THEN conjunct2, THEN conjunct2, THEN conjunct1, THEN mp, OF req(1),
             THEN conjunct2, THEN spec, THEN mp, OF conjI [OF verified_find stale]]
  have expired: "fst (resetPassword 400000 ''u1'' ''tok'' ''new-password'' verified_db)
                   = ResetTokenExpired"
    using late [THEN conjunct1] by (simp only: fst_conv)
  have none: "find (\<lambda>t. userId t = ''u1'' \<and> ttype t = Password \<and> resetToken t = Some ''nope'')
         (tokens verified_db) = None"
    using other by (simp add: find_None_iff)
  from verify_sample reset_sample roundtrip consumed mismatch expired ids none stale req
  show ?thesis
    by (intro conjI) simp_all
qed

end
